theory Spec2Isabelle
  imports Main
begin

section \<open>Data model\<close>

text \<open>
  The endpoint reads the \<open>liveStreamingDetails\<close> part of YouTube video resources. Each of
  the three time fields is an ISO-8601 string or is missing; the whole
  \<open>liveStreamingDetails\<close> object may be missing too (the code reads it through \<open>?.\<close>).
  \<open>None\<close> stands for JavaScript's \<open>undefined\<close> and \<open>null\<close>.
\<close>

record details =
  scheduledStartTime :: "string option"
  actualStartTime :: "string option"
  actualEndTime :: "string option"

text \<open>
  The field \<open>id\<close> of a video is called \<open>video_id\<close> here (\<open>id\<close> is HOL's identity).
\<close>

record video =
  video_id :: string
  liveStreamingDetails :: "details option"

text \<open>
  The four values of \<open>state\<close>; \<open>NoState\<close> is the string \<open>"none"\<close>.
\<close>

datatype state = Live | Upcoming | Replay | NoState

text \<open>
  The object \<open>{ state, videoId, upcomingStartMs }\<close>; \<open>None\<close> is \<open>null\<close>. A start time is a
  finite number of epoch milliseconds: an integer.
\<close>

record result =
  state :: state
  videoId :: "string option"
  upcomingStartMs :: "int option"

subsection \<open>JavaScript primitives the selection uses\<close>

text \<open>
  Truthiness of a value that is a string, \<open>undefined\<close> or \<open>null\<close>: only a non-empty string
  is truthy. This is the test behind \<open>d?.actualStartTime && ...\<close>, \<open>Boolean(...)\<close>,
  \<open>.filter(Boolean)\<close> and \<open>if (!uploads)\<close>.
\<close>

definition truthy :: "string option \<Rightarrow> bool" where
  "truthy x = (case x of None \<Rightarrow> False | Some s \<Rightarrow> s \<noteq> [])"

text \<open>
  \<open>v.liveStreamingDetails?.f\<close>: the field \<open>f\<close>, or \<open>undefined\<close> without the object.
\<close>

definition chain :: "(details \<Rightarrow> string option) \<Rightarrow> video \<Rightarrow> string option" where
  "chain f v = (case liveStreamingDetails v of None \<Rightarrow> None | Some d \<Rightarrow> f d)"

text \<open>
  \<open>x || ""\<close> for a string, \<open>undefined\<close> or \<open>null\<close>.
\<close>

definition or_empty :: "string option \<Rightarrow> string" where
  "or_empty x = (case x of None \<Rightarrow> [] | Some s \<Rightarrow> s)"

text \<open>
  \<open>Date.parse\<close> is a built-in of the language, not code of the repository. Its value on a
  non-empty string is the parameter \<open>dparse\<close>: \<open>Some n\<close> for the epoch milliseconds \<open>n\<close>
  (an integer, negative for dates before 1970), \<open>None\<close> for \<open>NaN\<close>. On the empty string
  \<open>Date.parse\<close> is \<open>NaN\<close>. \<open>Number.isFinite\<close> of the result is \<open>\<noteq> None\<close>.
\<close>

definition Date_parse :: "(string \<Rightarrow> int option) \<Rightarrow> string \<Rightarrow> int option" where
  "Date_parse dparse s = (if s = [] then None else dparse s)"

text \<open>
  \<open>xs[0]\<close>: \<open>undefined\<close> on the empty array.
\<close>

definition first :: "'a list \<Rightarrow> 'a option" where
  "first xs = (case xs of [] \<Rightarrow> None | x # _ \<Rightarrow> Some x)"

text \<open>
  \<open>Array.prototype.sort\<close> with a comparator: a stable sort, here as insertion from the
  right. An element stays in front of the elements it does not compare greater than, so
  elements that compare equal keep their input order.
\<close>

fun insert_cmp :: "('a \<Rightarrow> 'a \<Rightarrow> int) \<Rightarrow> 'a \<Rightarrow> 'a list \<Rightarrow> 'a list" where
  "insert_cmp cmp x [] = [x]"
| "insert_cmp cmp x (y # ys) = (if cmp x y \<le> 0 then x # y # ys else y # insert_cmp cmp x ys)"

definition sort_cmp :: "('a \<Rightarrow> 'a \<Rightarrow> int) \<Rightarrow> 'a list \<Rightarrow> 'a list" where
  "sort_cmp cmp xs = foldr (insert_cmp cmp) xs []"

section \<open>State selection with the late-start grace window\<close>

text \<open>
  \<open>pickStateFromVideos\<close> of the grace-window handler (the file that defines \<open>GRACE_MS\<close>).
  The source reads the clock (\<open>Date.now()\<close>) and the module constant \<open>GRACE_MS\<close>; both
  are arguments here, as is \<open>Date.parse\<close>.
\<close>

text \<open>
  \<open>GRACE_MS = Math.max(0, GRACE_MINUTES) * 60 * 1000\<close>, for a whole number of minutes (the
  default is 10).
\<close>

definition GRACE_MS :: "int \<Rightarrow> int" where
  "GRACE_MS graceMinutes = max 0 graceMinutes * 60 * 1000"

text \<open>
  The predicate of \<open>videos.find\<close>: \<open>d?.actualStartTime && !d?.actualEndTime\<close>.
\<close>

definition isLiveNow :: "video \<Rightarrow> bool" where
  "isLiveNow v = (truthy (chain actualStartTime v) \<and> \<not> truthy (chain actualEndTime v))"

text \<open>
  The objects \<open>{ id, t, hasActualStart, hasActualEnd }\<close> of the array \<open>scheduled\<close>.
\<close>

record sched =
  s_id :: string
  s_t :: int
  hasActualStart :: bool
  hasActualEnd :: bool

text \<open>
  \<open>t = Date.parse(d?.scheduledStartTime || "")\<close>, and one step of
  \<open>.map(...).filter((x) => Number.isFinite(x.t))\<close>: the object for a video whose
  \<open>scheduledStartTime\<close> parses, nothing for the others.
\<close>

definition schedMs :: "(string \<Rightarrow> int option) \<Rightarrow> video \<Rightarrow> int option" where
  "schedMs dparse v = Date_parse dparse (or_empty (chain scheduledStartTime v))"

definition mkSched :: "(string \<Rightarrow> int option) \<Rightarrow> video \<Rightarrow> sched option" where
  "mkSched dparse v =
     (case schedMs dparse v of
        None \<Rightarrow> None
      | Some n \<Rightarrow> Some \<lparr>s_id = video_id v, s_t = n,
                        hasActualStart = truthy (chain actualStartTime v),
                        hasActualEnd = truthy (chain actualEndTime v)\<rparr>)"

definition scheduled :: "(string \<Rightarrow> int option) \<Rightarrow> video list \<Rightarrow> sched list" where
  "scheduled dparse videos = List.map_filter (mkSched dparse) videos"

text \<open>
  Rule 2, the soonest start in the future, and rule 2b, the most recent start inside the
  grace window; each is a filter, a sort and the element at index 0.
\<close>

definition upcomingFuture :: "int \<Rightarrow> sched list \<Rightarrow> sched option" where
  "upcomingFuture now xs =
     first (sort_cmp (\<lambda>a b. s_t a - s_t b)
              (filter (\<lambda>x. \<not> hasActualEnd x \<and> s_t x > now) xs))"

definition upcomingGrace :: "int \<Rightarrow> int \<Rightarrow> sched list \<Rightarrow> sched option" where
  "upcomingGrace graceMs now xs =
     first (sort_cmp (\<lambda>a b. s_t b - s_t a)
              (filter (\<lambda>x. \<not> hasActualEnd x \<and> \<not> hasActualStart x \<and> s_t x \<le> now
                            \<and> now - s_t x \<le> graceMs) xs))"

text \<open>
  The sort key of the replay rule: \<open>Number.isFinite(t) ? t : 0\<close> for
  \<open>t = Date.parse(v.liveStreamingDetails.actualEndTime)\<close>. The rule sorts only videos
  whose \<open>actualEndTime\<close> is truthy, so the field is a non-empty string there.
\<close>

definition endKey :: "(string \<Rightarrow> int option) \<Rightarrow> video \<Rightarrow> int" where
  "endKey dparse v =
     (case Date_parse dparse (or_empty (chain actualEndTime v)) of None \<Rightarrow> 0 | Some n \<Rightarrow> n)"

definition completed :: "(string \<Rightarrow> int option) \<Rightarrow> video list \<Rightarrow> video option" where
  "completed dparse videos =
     first (sort_cmp (\<lambda>a b. endKey dparse b - endKey dparse a)
              (filter (\<lambda>v. truthy (chain actualEndTime v)) videos))"

text \<open>
  The selection: live first, then \<open>upcomingGrace || upcomingFuture\<close>, then the replay,
  then none.
\<close>

definition pickStateFromVideos ::
  "(string \<Rightarrow> int option) \<Rightarrow> int \<Rightarrow> int \<Rightarrow> video list \<Rightarrow> result" where
  "pickStateFromVideos dparse graceMs now videos =
     (case find isLiveNow videos of
        Some liveNow \<Rightarrow>
          \<lparr>state = Live, videoId = Some (video_id liveNow), upcomingStartMs = None\<rparr>
      | None \<Rightarrow>
          (let sch = scheduled dparse videos;
               upcomingPick =
                 (case upcomingGrace graceMs now sch of
                    Some g \<Rightarrow> Some g
                  | None \<Rightarrow> upcomingFuture now sch)
           in case upcomingPick of
                Some p \<Rightarrow>
                  \<lparr>state = Upcoming, videoId = Some (s_id p), upcomingStartMs = Some (s_t p)\<rparr>
              | None \<Rightarrow>
                  (case completed dparse videos of
                     Some c \<Rightarrow>
                       \<lparr>state = Replay, videoId = Some (video_id c), upcomingStartMs = None\<rparr>
                   | None \<Rightarrow>
                       \<lparr>state = NoState, videoId = None, upcomingStartMs = None\<rparr>)))"

section \<open>State selection without the grace window\<close>

text \<open>
  \<open>pickStateFromVideos\<close> of \<open>api/livestream.js\<close>. Its upcoming rule is
  \<open>.map(v => ({ id, t })).filter(x => Number.isFinite(x.t) && x.t > now).sort(...)[0]\<close>:
  it reads \<open>scheduledStartTime\<close> only. The pair is \<open>(id, t)\<close>. The live rule and the
  replay rule are those of the grace-window file.
\<close>

definition upcoming_livestream :: "(string \<Rightarrow> int option) \<Rightarrow> int \<Rightarrow> video list \<Rightarrow> (string \<times> int) option" where
  "upcoming_livestream dparse now videos =
     first (sort_cmp (\<lambda>a b. snd a - snd b)
              (List.map_filter
                 (\<lambda>v. case schedMs dparse v of
                         None \<Rightarrow> None
                       | Some n \<Rightarrow> if n > now then Some (video_id v, n) else None)
                 videos))"

definition pickStateFromVideos_livestream ::
  "(string \<Rightarrow> int option) \<Rightarrow> int \<Rightarrow> video list \<Rightarrow> result" where
  "pickStateFromVideos_livestream dparse now videos =
     (case find isLiveNow videos of
        Some liveNow \<Rightarrow>
          \<lparr>state = Live, videoId = Some (video_id liveNow), upcomingStartMs = None\<rparr>
      | None \<Rightarrow>
          (case upcoming_livestream dparse now videos of
             Some p \<Rightarrow>
               \<lparr>state = Upcoming, videoId = Some (fst p), upcomingStartMs = Some (snd p)\<rparr>
           | None \<Rightarrow>
               (case completed dparse videos of
                  Some c \<Rightarrow>
                    \<lparr>state = Replay, videoId = Some (video_id c), upcomingStartMs = None\<rparr>
                | None \<Rightarrow>
                    \<lparr>state = NoState, videoId = None, upcomingStartMs = None\<rparr>)))"

section \<open>Cache lifetime\<close>

text \<open>
  The \<open>s-maxage\<close> the grace-window handler derives from the selection, in seconds. The
  clock is read again here (\<open>now\<close> is this second reading). The branch for an upcoming
  start is guarded by \<open>result.state === "upcoming" && result.upcomingStartMs\<close>; a number
  is truthy when it is not zero.
\<close>

definition upcomingCacheSeconds :: "int \<Rightarrow> int \<Rightarrow> int \<Rightarrow> nat" where
  "upcomingCacheSeconds graceMs now startMs =
     (let diff = startMs - now;
          absLate = (if diff < 0 then \<bar>diff\<bar> else 0)
      in if diff \<le> 0 \<and> absLate \<le> graceMs then 5
         else if diff > 2 * 60 * 60 * 1000 then 1800
         else if diff > 30 * 60 * 1000 then 300
         else 20)"

definition stateCacheSeconds :: "state \<Rightarrow> nat" where
  "stateCacheSeconds s = (if s = Live then 10 else if s = Replay then 600 else 600)"

definition cacheSeconds :: "int \<Rightarrow> int \<Rightarrow> result \<Rightarrow> nat" where
  "cacheSeconds graceMs now r =
     (case upcomingStartMs r of
        None \<Rightarrow> stateCacheSeconds (state r)
      | Some startMs \<Rightarrow>
          if state r = Upcoming \<and> startMs \<noteq> 0 then upcomingCacheSeconds graceMs now startMs
          else stateCacheSeconds (state r))"

section \<open>External calls and module state\<close>

text \<open>
  An exception is its kind and its message. \<open>exn_text\<close> is
  \<open>String(e && e.message ? e.message : e)\<close>: the message, or the kind when the message is
  empty.
\<close>

datatype exn = Error string | TypeError string

definition exn_text :: "exn \<Rightarrow> string" where
  "exn_text e =
     (case e of
        Error m \<Rightarrow> if m \<noteq> [] then m else ''Error''
      | TypeError m \<Rightarrow> if m \<noteq> [] then m else ''TypeError'')"

text \<open>
  The JSON documents the handlers read from the YouTube API, with the fields they use.
  \<open>uploads\<close> is \<open>contentDetails?.relatedPlaylists?.uploads\<close> of a channel,
  \<open>item_videoId\<close> is \<open>contentDetails?.videoId\<close> of a playlist item, and the \<open>id\<close> of a
  search hit is an object that holds a \<open>videoId\<close>.
\<close>

record channel =
  uploads :: "string option"

record channels_response =
  channel_items :: "channel list option"

record playlist_item =
  item_videoId :: "string option"

record playlist_response =
  playlist_items :: "playlist_item list option"

record videos_response =
  video_items :: "video list option"

datatype search_id = SearchId "string option"

record search_item =
  item_id :: "search_id option"

record search_response =
  search_items :: "search_item list option"

text \<open>
  The world outside one request: the outcome of each \<open>fetchJson\<close> the handlers can make
  (\<open>Inl\<close> the exception it throws on a status that is not ok or on a body that does not
  parse), \<open>Date.parse\<close>, the two clock readings and the two ISO time stamps.
\<close>

record world =
  channelsList :: "exn + channels_response"
  playlistItemsList :: "string \<Rightarrow> nat \<Rightarrow> exn + playlist_response"
  videosList :: "string list \<Rightarrow> exn + videos_response"
  searchList :: "string \<Rightarrow> nat \<Rightarrow> exn + search_response"
  dateParse :: "string \<Rightarrow> int option"
  nowPick :: int
  nowCache :: int
  stampGenerated :: string
  stampFetched :: string

text \<open>
  \<open>process.env\<close>, with \<open>GRACE_MINUTES\<close> already a number.
\<close>

record env =
  API_KEY :: "string option"
  CHANNEL_ID :: "string option"
  GRACE_MINUTES :: int

text \<open>
  The request: its method and its query parameters (\<open>req.query\<close> may be missing).
\<close>

record request =
  http_method :: string
  query :: "(string \<times> string) list option"

text \<open>
  The log of the external calls of a request: the endpoint and the exception, if the call
  threw. The log is not in the source; it records which calls a run performed.
\<close>

datatype endpoint = Channels | PlaylistItems | Videos | Search

record call =
  endpoint :: endpoint
  failure :: "exn option"

text \<open>
  The mutable state: the module variable \<open>cachedUploadsPlaylistId\<close> (initially \<open>null\<close>)
  and the call log.
\<close>

record proc =
  cachedUploadsPlaylistId :: "string option"
  calls :: "call list"

definition fetchJson :: "endpoint \<Rightarrow> exn + 'a \<Rightarrow> proc \<Rightarrow> (exn + 'a) \<times> proc" where
  "fetchJson ep outcome s =
     (outcome, s\<lparr>calls := calls s @ [\<lparr>endpoint = ep, failure = (case outcome of Inl e \<Rightarrow> Some e | Inr _ \<Rightarrow> None)\<rparr>]\<rparr>)"

section \<open>The upload lister\<close>

text \<open>
  \<open>data?.items?.[0]?.contentDetails?.relatedPlaylists?.uploads\<close>.
\<close>

definition uploadsOf :: "channels_response \<Rightarrow> string option" where
  "uploadsOf data =
     (case channel_items data of
        None \<Rightarrow> None
      | Some [] \<Rightarrow> None
      | Some (c # _) \<Rightarrow> uploads c)"

text \<open>
  \<open>getUploadsPlaylistId\<close>: the memoized identifier when it is truthy, the lookup
  otherwise. The lookup throws when the fetch throws and when \<open>uploads\<close> is falsy, and
  stores the identifier only after both checks.
\<close>

definition lookupUploads :: "world \<Rightarrow> proc \<Rightarrow> (exn + string) \<times> proc" where
  "lookupUploads w s =
     (case fetchJson Channels (channelsList w) s of
        (Inl e, s1) \<Rightarrow> (Inl e, s1)
      | (Inr data, s1) \<Rightarrow>
          (case uploadsOf data of
             None \<Rightarrow> (Inl (Error ''Could not resolve uploads playlist ID''), s1)
           | Some u \<Rightarrow>
               if u = [] then (Inl (Error ''Could not resolve uploads playlist ID''), s1)
               else (Inr u, s1\<lparr>cachedUploadsPlaylistId := Some u\<rparr>)))"

definition getUploadsPlaylistId :: "world \<Rightarrow> proc \<Rightarrow> (exn + string) \<times> proc" where
  "getUploadsPlaylistId w s =
     (case cachedUploadsPlaylistId s of
        None \<Rightarrow> lookupUploads w s
      | Some c \<Rightarrow> if c = [] then lookupUploads w s else (Inr c, s))"

text \<open>
  \<open>(data.items || []).map((it) => it?.contentDetails?.videoId).filter(Boolean)\<close>.
\<close>

definition videoIdsOf :: "playlist_response \<Rightarrow> string list" where
  "videoIdsOf data =
     filter (\<lambda>i. i \<noteq> [])
       (List.map_filter item_videoId (case playlist_items data of None \<Rightarrow> [] | Some is \<Rightarrow> is))"

definition listRecentUploadVideoIds :: "world \<Rightarrow> nat \<Rightarrow> proc \<Rightarrow> (exn + string list) \<times> proc" where
  "listRecentUploadVideoIds w maxResults s =
     (case getUploadsPlaylistId w s of
        (Inl e, s1) \<Rightarrow> (Inl e, s1)
      | (Inr uploadsPlaylistId, s1) \<Rightarrow>
          (case fetchJson PlaylistItems (playlistItemsList w uploadsPlaylistId maxResults) s1 of
             (Inl e, s2) \<Rightarrow> (Inl e, s2)
           | (Inr data, s2) \<Rightarrow> (Inr (videoIdsOf data), s2)))"

definition getLiveStreamingDetails :: "world \<Rightarrow> string list \<Rightarrow> proc \<Rightarrow> (exn + video list) \<times> proc" where
  "getLiveStreamingDetails w ids s =
     (if ids = [] then (Inr [], s)
      else case fetchJson Videos (videosList w ids) s of
             (Inl e, s1) \<Rightarrow> (Inl e, s1)
           | (Inr data, s1) \<Rightarrow>
               (Inr (case video_items data of None \<Rightarrow> [] | Some vs \<Rightarrow> vs), s1))"

section \<open>Responses\<close>

text \<open>
  A response: status, whether the CORS headers are set, the \<open>Cache-Control\<close> header
  (\<open>SMaxage n m\<close> is \<open>s-maxage=n, stale-while-revalidate=m\<close>) and the JSON body. In a body
  \<open>b_result\<close> holds the three keys \<open>state\<close>, \<open>videoId\<close> and \<open>upcomingStartMs\<close>; a key
  that is missing or \<open>null\<close> is \<open>None\<close>.
\<close>

datatype cache_control = SMaxage nat nat | NoStore

record body =
  b_error :: "string option"
  b_result :: "result option"
  b_debugError :: "string option"
  b_generatedAt :: "string option"
  b_youtubeFetchedAt :: "string option"

record response =
  r_status :: nat
  r_cors :: bool
  r_cacheControl :: "cache_control option"
  r_body :: "body option"

definition json :: "nat \<Rightarrow> body \<Rightarrow> nat \<Rightarrow> response" where
  "json status b secs =
     \<lparr>r_status = status, r_cors = True, r_cacheControl = Some (SMaxage secs 30),
      r_body = Some b\<rparr>"

definition preflight :: response where
  "preflight = \<lparr>r_status = 204, r_cors = True, r_cacheControl = None, r_body = None\<rparr>"

definition noneResult :: result where
  "noneResult = \<lparr>state = NoState, videoId = None, upcomingStartMs = None\<rparr>"

section \<open>The grace-window handler\<close>

text \<open>
  The body of \<open>try\<close> in \<open>module.exports\<close> of the grace-window file, then the handler
  with its \<open>catch\<close>. This handler never reads \<open>req.query\<close>.
\<close>

definition handler_try :: "env \<Rightarrow> world \<Rightarrow> proc \<Rightarrow> (exn + response) \<times> proc" where
  "handler_try en w s =
     (if \<not> truthy (API_KEY en) \<or> \<not> truthy (CHANNEL_ID en) then
        (Inr (json 500
               \<lparr>b_error = Some ''Missing env vars'', b_result = Some noneResult,
                b_debugError = None, b_generatedAt = Some (stampGenerated w),
                b_youtubeFetchedAt = None\<rparr> 60), s)
      else case listRecentUploadVideoIds w 20 s of
             (Inl e, s1) \<Rightarrow> (Inl e, s1)
           | (Inr ids, s1) \<Rightarrow>
               if ids = [] then
                 (Inr (json 200
                        \<lparr>b_error = None, b_result = Some noneResult, b_debugError = None,
                         b_generatedAt = Some (stampGenerated w),
                         b_youtubeFetchedAt = Some (stampFetched w)\<rparr> 600), s1)
               else case getLiveStreamingDetails w ids s1 of
                      (Inl e, s2) \<Rightarrow> (Inl e, s2)
                    | (Inr videos, s2) \<Rightarrow>
                        (let res = pickStateFromVideos (dateParse w)
                                     (GRACE_MS (GRACE_MINUTES en)) (nowPick w) videos
                         in (Inr (json 200
                                   \<lparr>b_error = None, b_result = Some res, b_debugError = None,
                                    b_generatedAt = Some (stampGenerated w),
                                    b_youtubeFetchedAt = Some (stampFetched w)\<rparr>
                                   (cacheSeconds (GRACE_MS (GRACE_MINUTES en)) (nowCache w) res)),
                             s2)))"

definition handler :: "env \<Rightarrow> request \<Rightarrow> world \<Rightarrow> string option \<Rightarrow> response \<times> proc" where
  "handler en req w cached =
     (let s = \<lparr>cachedUploadsPlaylistId = cached, calls = []\<rparr>
      in if http_method req = ''OPTIONS'' then (preflight, s)
         else case handler_try en w s of
                (Inr resp, s1) \<Rightarrow> (resp, s1)
              | (Inl e, s1) \<Rightarrow>
                  (json 200
                     \<lparr>b_error = None, b_result = Some noneResult, b_debugError = None,
                      b_generatedAt = Some (stampGenerated w), b_youtubeFetchedAt = None\<rparr>
                     600, s1))"

section \<open>The search-based handler with the debug flag\<close>

text \<open>
  The handler of the file that calls \<open>search.list\<close> three times and reads
  \<open>req.query.debug\<close>. \<open>hasItems\<close> is \<open>r.items && r.items.length\<close>; \<open>firstVideoId\<close> is
  \<open>r.items[0].id.videoId\<close>, which throws a \<open>TypeError\<close> when \<open>id\<close> is missing.
\<close>

definition ytSearch ::
  "world \<Rightarrow> string \<Rightarrow> nat \<Rightarrow> proc \<Rightarrow> (exn + search_response) \<times> proc" where
  "ytSearch w eventType maxResults s = fetchJson Search (searchList w eventType maxResults) s"

definition hasItems :: "search_response \<Rightarrow> bool" where
  "hasItems r = (case search_items r of None \<Rightarrow> False | Some [] \<Rightarrow> False | Some (_ # _) \<Rightarrow> True)"

definition firstVideoId :: "search_response \<Rightarrow> exn + string option" where
  "firstVideoId r =
     (case search_items r of
        Some (x # _) \<Rightarrow>
          (case item_id x of
             None \<Rightarrow> Inl (TypeError ''Cannot read properties of undefined (reading 'videoId')'')
           | Some (SearchId vid) \<Rightarrow> Inr vid)
      | _ \<Rightarrow> Inl (TypeError ''Cannot read properties of undefined (reading 'id')''))"

text \<open>
  \<open>pickSoonestUpcoming\<close>: the ids are
  \<open>(upcoming.items || []).map(x => x.id && x.id.videoId).filter(Boolean)\<close>, the filter on
  the details is \<open>x.t && x.t > now\<close>.
\<close>

definition searchVideoIds :: "search_response \<Rightarrow> string list" where
  "searchVideoIds r =
     filter (\<lambda>i. i \<noteq> [])
       (List.map_filter (\<lambda>x. case item_id x of None \<Rightarrow> None | Some (SearchId vid) \<Rightarrow> vid)
          (case search_items r of None \<Rightarrow> [] | Some is \<Rightarrow> is))"

definition soonestOf :: "(string \<Rightarrow> int option) \<Rightarrow> int \<Rightarrow> video list \<Rightarrow> (string \<times> int) option" where
  "soonestOf dparse now videos =
     first (sort_cmp (\<lambda>a b. snd a - snd b)
              (List.map_filter
                 (\<lambda>v. case schedMs dparse v of
                         None \<Rightarrow> None
                       | Some n \<Rightarrow> if n \<noteq> 0 \<and> n > now then Some (video_id v, n) else None)
                 videos))"

definition pickSoonestUpcoming ::
  "world \<Rightarrow> nat \<Rightarrow> proc \<Rightarrow> (exn + (string \<times> int) option) \<times> proc" where
  "pickSoonestUpcoming w limit s =
     (case ytSearch w ''upcoming'' limit s of
        (Inl e, s1) \<Rightarrow> (Inl e, s1)
      | (Inr upcoming, s1) \<Rightarrow>
          (let ids = searchVideoIds upcoming
           in if ids = [] then (Inr None, s1)
              else case fetchJson Videos (videosList w ids) s1 of
                     (Inl e, s2) \<Rightarrow> (Inl e, s2)
                   | (Inr details, s2) \<Rightarrow>
                       (Inr (soonestOf (dateParse w) (nowPick w)
                               (case video_items details of None \<Rightarrow> [] | Some vs \<Rightarrow> vs)),
                        s2)))"

text \<open>
  \<open>req.query && String(req.query.debug || "") === "1"\<close>.
\<close>

definition debugFlag :: "request \<Rightarrow> bool" where
  "debugFlag req =
     (case query req of
        None \<Rightarrow> False
      | Some q \<Rightarrow> (case map_of q ''debug'' of None \<Rightarrow> False | Some d \<Rightarrow> d = ''1''))"

definition stateBody :: "result \<Rightarrow> body" where
  "stateBody r =
     \<lparr>b_error = None, b_result = Some r, b_debugError = None, b_generatedAt = None,
      b_youtubeFetchedAt = None\<rparr>"

text \<open>
  Step 3 and the fallback of the handler, then the whole \<open>try\<close> and the \<open>catch\<close>.
\<close>

definition search_replay :: "world \<Rightarrow> proc \<Rightarrow> (exn + response) \<times> proc" where
  "search_replay w s =
     (case ytSearch w ''completed'' 1 s of
        (Inl e, s1) \<Rightarrow> (Inl e, s1)
      | (Inr finished, s1) \<Rightarrow>
          if hasItems finished then
            (case firstVideoId finished of
               Inl e \<Rightarrow> (Inl e, s1)
             | Inr vid \<Rightarrow>
                 (Inr (json 200
                        (stateBody \<lparr>state = Replay, videoId = vid, upcomingStartMs = None\<rparr>)
                        600), s1))
          else (Inr (json 200 (stateBody noneResult) 600), s1))"

definition search_handler_try :: "env \<Rightarrow> world \<Rightarrow> proc \<Rightarrow> (exn + response) \<times> proc" where
  "search_handler_try en w s =
     (if \<not> truthy (API_KEY en) \<or> \<not> truthy (CHANNEL_ID en) then
        (Inr (json 500
               \<lparr>b_error = Some ''Missing env vars'', b_result = None, b_debugError = None,
                b_generatedAt = None, b_youtubeFetchedAt = None\<rparr> 60), s)
      else case ytSearch w ''live'' 1 s of
             (Inl e, s1) \<Rightarrow> (Inl e, s1)
           | (Inr live, s1) \<Rightarrow>
               if hasItems live then
                 (case firstVideoId live of
                    Inl e \<Rightarrow> (Inl e, s1)
                  | Inr vid \<Rightarrow>
                      (Inr (json 200
                             (stateBody \<lparr>state = Live, videoId = vid, upcomingStartMs = None\<rparr>)
                             30), s1))
               else case pickSoonestUpcoming w 10 s1 of
                      (Inl e, s2) \<Rightarrow> (Inl e, s2)
                    | (Inr None, s2) \<Rightarrow> search_replay w s2
                    | (Inr (Some (i, t)), s2) \<Rightarrow>
                        if i = [] then search_replay w s2
                        else
                          (let diff = t - nowCache w;
                               secs = (if diff > 2 * 60 * 60 * 1000 then 1800
                                       else if diff > 30 * 60 * 1000 then 300
                                       else 30)
                           in (Inr (json 200
                                     (stateBody \<lparr>state = Upcoming, videoId = Some i,
                                                 upcomingStartMs = Some t\<rparr>)
                                     secs), s2)))"

definition search_handler :: "env \<Rightarrow> request \<Rightarrow> world \<Rightarrow> response \<times> proc" where
  "search_handler en req w =
     (let s = \<lparr>cachedUploadsPlaylistId = None, calls = []\<rparr>
      in if http_method req = ''OPTIONS'' then (preflight, s)
         else case search_handler_try en w s of
                (Inr resp, s1) \<Rightarrow> (resp, s1)
              | (Inl e, s1) \<Rightarrow>
                  if debugFlag req then
                    (\<lparr>r_status = 200, r_cors = True, r_cacheControl = Some NoStore,
                      r_body = Some ((stateBody noneResult)
                                       \<lparr>b_debugError := Some (exn_text e)\<rparr>)\<rparr>, s1)
                  else (json 200 (stateBody noneResult) 600, s1))"

section \<open>Vocabulary of the properties\<close>

text \<open>
  A time field is present when the code treats it as set, that is when it is truthy: a
  non-empty string.
\<close>

definition started :: "video \<Rightarrow> bool" where
  "started v = truthy (chain actualStartTime v)"

definition ended :: "video \<Rightarrow> bool" where
  "ended v = truthy (chain actualEndTime v)"

text \<open>
  The candidates of the two upcoming rules in the words of the specification, with the
  parsed \<open>scheduledStartTime\<close> \<open>t\<close>.
\<close>

definition grace_candidate :: "(string \<Rightarrow> int option) \<Rightarrow> int \<Rightarrow> int \<Rightarrow> video \<Rightarrow> int \<Rightarrow> bool" where
  "grace_candidate dparse graceMs now v t =
     (\<not> ended v \<and> \<not> started v \<and> schedMs dparse v = Some t \<and> t \<le> now \<and> now - t \<le> graceMs)"

definition future_candidate :: "(string \<Rightarrow> int option) \<Rightarrow> int \<Rightarrow> video \<Rightarrow> int \<Rightarrow> bool" where
  "future_candidate dparse now v t = (\<not> ended v \<and> schedMs dparse v = Some t \<and> now < t)"

text \<open>
  The parsed \<open>actualEndTime\<close>, \<open>None\<close> when it does not parse.
\<close>

definition endMs :: "(string \<Rightarrow> int option) \<Rightarrow> video \<Rightarrow> int option" where
  "endMs dparse v = Date_parse dparse (or_empty (chain actualEndTime v))"

text \<open>
  A sequence of calls of \<open>getUploadsPlaylistId\<close>, each in its own world.
\<close>

fun callsFrom :: "world list \<Rightarrow> proc \<Rightarrow> (exn + string) list \<times> proc" where
  "callsFrom [] s = ([], s)"
| "callsFrom (w # ws) s =
     (case getUploadsPlaylistId w s of
        (r, s1) \<Rightarrow> (case callsFrom ws s1 of (rs, s2) \<Rightarrow> (r # rs, s2)))"

text \<open>
  The body the grace-window handler sends from its \<open>catch\<close>.
\<close>

definition failureBody :: "world \<Rightarrow> body" where
  "failureBody w =
     \<lparr>b_error = None, b_result = Some noneResult, b_debugError = None,
      b_generatedAt = Some (stampGenerated w), b_youtubeFetchedAt = None\<rparr>"

text \<open>
  A run is \<open>fresh\<close> when every call it added to the log succeeded, or, if the run threw
  \<open>e\<close>, succeeded or threw \<open>e\<close>.
\<close>

definition fresh :: "proc \<Rightarrow> proc \<Rightarrow> exn + 'a \<Rightarrow> bool" where
  "fresh s s' r =
     (\<forall>c\<in>set (calls s'). c \<in> set (calls s) \<or>
        (case r of Inr _ \<Rightarrow> failure c = None | Inl e \<Rightarrow> failure c = None \<or> failure c = Some e))"

section \<open>Example inputs\<close>

text \<open>
  A table of \<open>Date.parse\<close> on the strings the examples use, and videos, worlds and
  requests for the concrete evaluations below.
\<close>

definition demo_parse :: "string \<Rightarrow> int option" where
  "demo_parse s =
     map_of [(''1970-01-01T00:00:00Z'', 0),
             (''1969-12-31T23:59:59Z'', - 1000),
             (''2030-01-01T09:30:00Z'', 1893490200000),
             (''2030-01-01T09:55:00Z'', 1893491700000),
             (''2030-01-01T10:00:00Z'', 1893492000000)] s"

definition early_finisher :: video where
  "early_finisher =
     \<lparr>video_id = ''early'',
      liveStreamingDetails = Some \<lparr>scheduledStartTime = Some ''2030-01-01T10:00:00Z'',
                                   actualStartTime = Some ''2030-01-01T09:30:00Z'',
                                   actualEndTime = Some ''2030-01-01T09:55:00Z''\<rparr>\<rparr>"

definition ended_1969 :: video where
  "ended_1969 =
     \<lparr>video_id = ''old'',
      liveStreamingDetails = Some \<lparr>scheduledStartTime = None,
                                   actualStartTime = Some ''1969-12-31T23:59:59Z'',
                                   actualEndTime = Some ''1969-12-31T23:59:59Z''\<rparr>\<rparr>"

definition ended_garbled :: video where
  "ended_garbled =
     \<lparr>video_id = ''garbled'',
      liveStreamingDetails = Some \<lparr>scheduledStartTime = None,
                                   actualStartTime = None,
                                   actualEndTime = Some ''soon''\<rparr>\<rparr>"

definition live_video :: video where
  "live_video =
     \<lparr>video_id = ''live'',
      liveStreamingDetails = Some \<lparr>scheduledStartTime = None,
                                   actualStartTime = Some ''2030-01-01T09:30:00Z'',
                                   actualEndTime = None\<rparr>\<rparr>"

definition late_starter :: video where
  "late_starter =
     \<lparr>video_id = ''late'',
      liveStreamingDetails = Some \<lparr>scheduledStartTime = Some ''2030-01-01T09:30:00Z'',
                                   actualStartTime = None,
                                   actualEndTime = None\<rparr>\<rparr>"

definition future_video :: video where
  "future_video =
     \<lparr>video_id = ''future'',
      liveStreamingDetails = Some \<lparr>scheduledStartTime = Some ''2030-01-01T10:00:00Z'',
                                   actualStartTime = None,
                                   actualEndTime = None\<rparr>\<rparr>"

definition good_env :: env where
  "good_env = \<lparr>API_KEY = Some ''key'', CHANNEL_ID = Some ''UC123'', GRACE_MINUTES = 10\<rparr>"

definition debug_request :: request where
  "debug_request = \<lparr>http_method = ''GET'', query = Some [(''debug'', ''1'')]\<rparr>"

definition quota_world :: world where
  "quota_world =
     \<lparr>channelsList = Inl (Error ''403 :: quotaExceeded''),
      playlistItemsList = (\<lambda>_ _. Inl (Error ''403 :: quotaExceeded'')),
      videosList = (\<lambda>_. Inl (Error ''403 :: quotaExceeded'')),
      searchList = (\<lambda>_ _. Inl (Error ''403 :: quotaExceeded'')),
      dateParse = demo_parse,
      nowPick = 1893491820000,
      nowCache = 1893491820001,
      stampGenerated = ''2030-01-01T09:57:00.000Z'',
      stampFetched = ''2030-01-01T09:57:00.001Z''\<rparr>"

definition empty_channels_world :: world where
  "empty_channels_world = quota_world\<lparr>channelsList := Inr \<lparr>channel_items = Some []\<rparr>\<rparr>"

definition resolving_world :: world where
  "resolving_world =
     quota_world\<lparr>channelsList := Inr \<lparr>channel_items = Some [\<lparr>uploads = Some ''UU123''\<rparr>]\<rparr>\<rparr>"

definition cold :: proc where
  "cold = \<lparr>cachedUploadsPlaylistId = None, calls = []\<rparr>"

definition warm :: proc where
  "warm = \<lparr>cachedUploadsPlaylistId = Some ''UU123'',
           calls = [\<lparr>endpoint = Channels, failure = None\<rparr>]\<rparr>"

section \<open>Lemmas\<close>

lemmas model_defs =
  pickStateFromVideos_def scheduled_def mkSched_def schedMs_def upcomingGrace_def
  upcomingFuture_def completed_def endKey_def first_def sort_cmp_def isLiveNow_def
  truthy_def chain_def or_empty_def Date_parse_def

lemmas video_defs =
  live_video_def late_starter_def future_video_def early_finisher_def
  ended_1969_def ended_garbled_def demo_parse_def

lemmas claim_defs = started_def ended_def grace_candidate_def future_candidate_def

lemmas sel_defs = claim_defs truthy_def chain_def schedMs_def or_empty_def Date_parse_def

lemmas handler_defs =
  handler_def handler_try_def listRecentUploadVideoIds_def getUploadsPlaylistId_def
  lookupUploads_def fetchJson_def good_env_def debug_request_def quota_world_def truthy_def
  search_handler_def search_handler_try_def ytSearch_def debugFlag_def Let_def

subsection \<open>Sorting and the element at index 0\<close>

lemma insert_cmp_asc: "insert_cmp (\<lambda>a b. k a - k b) x ys = insort_key k x ys"
  by (induction ys) auto

lemma sort_cmp_asc: "sort_cmp (\<lambda>a b. k a - k b) xs = sort_key k xs"
  by (induction xs) (simp_all add: sort_cmp_def insert_cmp_asc)

lemma insert_cmp_desc: "insert_cmp (\<lambda>a b. k b - k a) x ys = insort_key (\<lambda>x. - k x) x ys"
  by (induction ys) auto

lemma sort_cmp_desc: "sort_cmp (\<lambda>a b. k b - k a) xs = sort_key (\<lambda>x. - k x) xs"
  by (induction xs) (simp_all add: sort_cmp_def insert_cmp_desc)

lemma first_None_iff: "first xs = None \<longleftrightarrow> xs = []"
  by (cases xs) (simp_all add: first_def)

lemma first_sort_key_None: "first (sort_key k xs) = None \<longleftrightarrow> xs = []"
  by (metis first_None_iff length_0_conv length_sort)

lemma first_sort_key_stable:
  fixes k :: "'a \<Rightarrow> int"
  shows "first (sort_key k xs) = Some x \<Longrightarrow>
    \<exists>pre post. xs = pre @ x # post \<and> (\<forall>y\<in>set pre. k x < k y) \<and> (\<forall>y\<in>set post. k x \<le> k y)"
proof (induction xs arbitrary: x)
  case Nil
  then show ?case by (simp add: first_def)
next
  case (Cons a xs)
  show ?case
  proof (cases "sort_key k xs")
    case Nil
    then have "xs = []" by (metis length_0_conv length_sort)
    with Cons.prems have "x = a" by (simp add: first_def)
    with \<open>xs = []\<close> show ?thesis by (intro exI [of _ "[]"]) simp
  next
    case (Cons h rest)
    then have fh: "first (sort_key k xs) = Some h" by (simp add: first_def)
    from Cons.IH [OF fh] obtain pre post where
      dec: "xs = pre @ h # post" "\<forall>y\<in>set pre. k h < k y" "\<forall>y\<in>set post. k h \<le> k y"
      by blast
    show ?thesis
    proof (cases "k a \<le> k h")
      case True
      with Cons Cons.prems have "x = a" by (simp add: first_def)
      moreover from True dec have "\<forall>y\<in>set xs. k a \<le> k y" by fastforce
      ultimately show ?thesis by (intro exI [of _ "[]"] exI [of _ xs]) simp
    next
      case False
      with Cons Cons.prems have "x = h" by (simp add: first_def)
      with False dec show ?thesis
        by (intro exI [of _ "a # pre"] exI [of _ post]) auto
    qed
  qed
qed

lemma first_sort_key_min:
  fixes k :: "'a \<Rightarrow> int"
  assumes "first (sort_key k xs) = Some x"
  shows "x \<in> set xs" and "\<forall>y\<in>set xs. k x \<le> k y"
proof -
  from first_sort_key_stable [OF assms] obtain pre post where
    "xs = pre @ x # post" "\<forall>y\<in>set pre. k x < k y" "\<forall>y\<in>set post. k x \<le> k y" by blast
  then show "x \<in> set xs" and "\<forall>y\<in>set xs. k x \<le> k y" by fastforce+
qed

lemma find_first_match:
  "\<forall>u\<in>set pre. \<not> P u \<Longrightarrow> P v \<Longrightarrow> find P (pre @ v # post) = Some v"
  by (induction pre) simp_all

lemma filter_split:
  "filter P xs = pre @ c # post \<Longrightarrow>
     \<exists>pre' post'. xs = pre' @ c # post' \<and> pre = filter P pre' \<and> post = filter P post'"
proof (induction xs arbitrary: pre)
  case Nil
  then show ?case by simp
next
  case (Cons a xs)
  show ?case
  proof (cases "P a")
    case False
    with Cons.prems have "filter P xs = pre @ c # post" by simp
    from Cons.IH [OF this] obtain pre' post' where
      "xs = pre' @ c # post'" "pre = filter P pre'" "post = filter P post'" by blast
    with False show ?thesis by (intro exI [of _ "a # pre'"] exI [of _ post']) simp
  next
    case True
    with Cons.prems have eq: "a # filter P xs = pre @ c # post" by simp
    show ?thesis
    proof (cases pre)
      case Nil
      with eq have "a = c" "filter P xs = post" by simp_all
      with Nil show ?thesis by (intro exI [of _ "[]"] exI [of _ xs]) simp
    next
      case (Cons b pre2)
      with eq have "a = b" "filter P xs = pre2 @ c # post" by simp_all
      from Cons.IH [OF this(2)] obtain pre' post' where
        "xs = pre' @ c # post'" "pre2 = filter P pre'" "post = filter P post'" by blast
      with True Cons \<open>a = b\<close> show ?thesis
        by (intro exI [of _ "a # pre'"] exI [of _ post']) simp
    qed
  qed
qed

subsection \<open>The rules of the selection\<close>

lemma set_scheduled:
  "set (scheduled dparse videos) = {x. \<exists>v\<in>set videos. mkSched dparse v = Some x}"
  by (induction videos) (auto simp: scheduled_def split: option.splits)

lemma mkSched_Some:
  "mkSched dparse v = Some x \<longleftrightarrow>
     schedMs dparse v = Some (s_t x) \<and> s_id x = video_id v \<and>
     hasActualStart x = started v \<and> hasActualEnd x = ended v"
  by (cases x) (auto simp: mkSched_def started_def ended_def split: option.splits)

lemma upcomingGrace_Some:
  assumes "upcomingGrace graceMs now (scheduled dparse videos) = Some g"
  shows "\<exists>v\<in>set videos. grace_candidate dparse graceMs now v (s_t g) \<and> s_id g = video_id v"
    and "\<forall>u\<in>set videos. \<forall>s. grace_candidate dparse graceMs now u s \<longrightarrow> s \<le> s_t g"
proof -
  let ?P = "\<lambda>x. \<not> hasActualEnd x \<and> \<not> hasActualStart x \<and> s_t x \<le> now \<and> now - s_t x \<le> graceMs"
  let ?G = "filter ?P (scheduled dparse videos)"
  from assms have f: "first (sort_key (\<lambda>x. - s_t x) ?G) = Some g"
    by (simp add: upcomingGrace_def sort_cmp_desc)
  from first_sort_key_min [OF f] have gin: "g \<in> set ?G" and gmax: "\<forall>y\<in>set ?G. s_t y \<le> s_t g"
    by simp_all
  from gin obtain v where v: "v \<in> set videos" "mkSched dparse v = Some g" and pg: "?P g"
    by (auto simp: set_scheduled)
  then show "\<exists>v\<in>set videos. grace_candidate dparse graceMs now v (s_t g) \<and> s_id g = video_id v"
    by (auto simp: mkSched_Some grace_candidate_def)
  show "\<forall>u\<in>set videos. \<forall>s. grace_candidate dparse graceMs now u s \<longrightarrow> s \<le> s_t g"
  proof (intro ballI allI impI)
    fix u s assume u: "u \<in> set videos" and c: "grace_candidate dparse graceMs now u s"
    let ?x = "\<lparr>s_id = video_id u, s_t = s, hasActualStart = started u, hasActualEnd = ended u\<rparr>"
    from c have "mkSched dparse u = Some ?x" by (simp add: mkSched_Some grace_candidate_def)
    with u c have "?x \<in> set ?G" by (auto simp: set_scheduled grace_candidate_def)
    with gmax show "s \<le> s_t g" by fastforce
  qed
qed

lemma upcomingGrace_None:
  assumes "upcomingGrace graceMs now (scheduled dparse videos) = None"
  shows "\<forall>u\<in>set videos. \<forall>s. \<not> grace_candidate dparse graceMs now u s"
proof (intro ballI allI notI)
  fix u s assume u: "u \<in> set videos" and c: "grace_candidate dparse graceMs now u s"
  let ?P = "\<lambda>x. \<not> hasActualEnd x \<and> \<not> hasActualStart x \<and> s_t x \<le> now \<and> now - s_t x \<le> graceMs"
  let ?x = "\<lparr>s_id = video_id u, s_t = s, hasActualStart = started u, hasActualEnd = ended u\<rparr>"
  from c have "mkSched dparse u = Some ?x" by (simp add: mkSched_Some grace_candidate_def)
  with u c have "?x \<in> set (filter ?P (scheduled dparse videos))"
    by (auto simp: set_scheduled grace_candidate_def)
  moreover from assms have "filter ?P (scheduled dparse videos) = []"
    by (simp add: upcomingGrace_def sort_cmp_desc first_sort_key_None)
  ultimately show False by simp
qed

lemma upcomingFuture_Some:
  assumes "upcomingFuture now (scheduled dparse videos) = Some g"
  shows "\<exists>v\<in>set videos. future_candidate dparse now v (s_t g) \<and> s_id g = video_id v"
    and "\<forall>u\<in>set videos. \<forall>s. future_candidate dparse now u s \<longrightarrow> s_t g \<le> s"
proof -
  let ?P = "\<lambda>x. \<not> hasActualEnd x \<and> s_t x > now"
  let ?G = "filter ?P (scheduled dparse videos)"
  from assms have f: "first (sort_key s_t ?G) = Some g"
    by (simp add: upcomingFuture_def sort_cmp_asc)
  from first_sort_key_min [OF f] have gin: "g \<in> set ?G" and gmin: "\<forall>y\<in>set ?G. s_t g \<le> s_t y"
    by simp_all
  from gin obtain v where v: "v \<in> set videos" "mkSched dparse v = Some g" and pg: "?P g"
    by (auto simp: set_scheduled)
  then show "\<exists>v\<in>set videos. future_candidate dparse now v (s_t g) \<and> s_id g = video_id v"
    by (auto simp: mkSched_Some future_candidate_def)
  show "\<forall>u\<in>set videos. \<forall>s. future_candidate dparse now u s \<longrightarrow> s_t g \<le> s"
  proof (intro ballI allI impI)
    fix u s assume u: "u \<in> set videos" and c: "future_candidate dparse now u s"
    let ?x = "\<lparr>s_id = video_id u, s_t = s, hasActualStart = started u, hasActualEnd = ended u\<rparr>"
    from c have "mkSched dparse u = Some ?x" by (simp add: mkSched_Some future_candidate_def)
    with u c have "?x \<in> set ?G" by (auto simp: set_scheduled future_candidate_def)
    with gmin show "s_t g \<le> s" by fastforce
  qed
qed

lemma upcomingFuture_None:
  assumes "upcomingFuture now (scheduled dparse videos) = None"
  shows "\<forall>u\<in>set videos. \<forall>s. \<not> future_candidate dparse now u s"
proof (intro ballI allI notI)
  fix u s assume u: "u \<in> set videos" and c: "future_candidate dparse now u s"
  let ?P = "\<lambda>x. \<not> hasActualEnd x \<and> s_t x > now"
  let ?x = "\<lparr>s_id = video_id u, s_t = s, hasActualStart = started u, hasActualEnd = ended u\<rparr>"
  from c have "mkSched dparse u = Some ?x" by (simp add: mkSched_Some future_candidate_def)
  with u c have "?x \<in> set (filter ?P (scheduled dparse videos))"
    by (auto simp: set_scheduled future_candidate_def)
  moreover from assms have "filter ?P (scheduled dparse videos) = []"
    by (simp add: upcomingFuture_def sort_cmp_asc first_sort_key_None)
  ultimately show False by simp
qed

lemma completed_Some:
  assumes "completed dparse videos = Some c"
  shows "\<exists>pre post. videos = pre @ c # post \<and> ended c
           \<and> (\<forall>u\<in>set pre. ended u \<longrightarrow> endKey dparse u < endKey dparse c)
           \<and> (\<forall>u\<in>set post. ended u \<longrightarrow> endKey dparse u \<le> endKey dparse c)"
proof -
  let ?E = "filter (\<lambda>v. truthy (chain actualEndTime v)) videos"
  from assms have "first (sort_key (\<lambda>v. - endKey dparse v) ?E) = Some c"
    by (simp add: completed_def sort_cmp_desc)
  from first_sort_key_stable [OF this] obtain pre post where
    dec: "?E = pre @ c # post"
    and lt: "\<forall>y\<in>set pre. endKey dparse y < endKey dparse c"
    and le: "\<forall>y\<in>set post. endKey dparse y \<le> endKey dparse c"
    by auto
  from filter_split [OF dec] obtain pre' post' where
    v: "videos = pre' @ c # post'" and p: "pre = filter (\<lambda>v. truthy (chain actualEndTime v)) pre'"
    and q: "post = filter (\<lambda>v. truthy (chain actualEndTime v)) post'" by blast
  have "c \<in> set ?E" using dec by simp
  then have "ended c" by (simp add: ended_def)
  moreover from lt p have "\<forall>u\<in>set pre'. ended u \<longrightarrow> endKey dparse u < endKey dparse c"
    by (simp add: ended_def)
  moreover from le q have "\<forall>u\<in>set post'. ended u \<longrightarrow> endKey dparse u \<le> endKey dparse c"
    by (simp add: ended_def)
  ultimately show ?thesis using v by blast
qed

lemma completed_None: "completed dparse videos = None \<longleftrightarrow> (\<forall>v\<in>set videos. \<not> ended v)"
  by (simp add: completed_def sort_cmp_desc first_sort_key_None filter_empty_conv ended_def)

lemma GRACE_MS_nonneg: "0 \<le> GRACE_MS m"
  by (simp add: GRACE_MS_def)

text \<open>
  Once the clock is past the grace window (\<open>graceMs < now\<close>, as for every clock reading
  later than ten minutes after the epoch with the default window), the start time of an
  upcoming selection is positive: a grace pick is at most \<open>graceMs\<close> before \<open>now\<close>, a future
  pick is after \<open>now\<close>. So the guard \<open>result.upcomingStartMs\<close> of the cache lifetime holds for
  it.
\<close>

lemma upcoming_start_positive:
  assumes g: "0 \<le> graceMs" "graceMs < now"
    and st: "state (pickStateFromVideos dparse graceMs now videos) = Upcoming"
  shows "\<exists>t. upcomingStartMs (pickStateFromVideos dparse graceMs now videos) = Some t \<and> 0 < t"
proof (cases "find isLiveNow videos")
  case (Some a)
  with st show ?thesis by (simp add: pickStateFromVideos_def)
next
  case None
  show ?thesis
  proof (cases "upcomingGrace graceMs now (scheduled dparse videos)")
    case (Some p)
    from upcomingGrace_Some(1) [OF Some] g have "0 < s_t p"
      by (auto simp: grace_candidate_def)
    with None Some show ?thesis by (simp add: pickStateFromVideos_def)
  next
    case gN: None
    show ?thesis
    proof (cases "upcomingFuture now (scheduled dparse videos)")
      case (Some p)
      from upcomingFuture_Some(1) [OF Some] g have "0 < s_t p"
        by (auto simp: future_candidate_def)
      with None gN Some show ?thesis by (simp add: pickStateFromVideos_def)
    next
      case fN: None
      with None gN st show ?thesis
        by (simp add: pickStateFromVideos_def split: option.splits)
    qed
  qed
qed

lemma cacheSeconds_upcoming:
  "state r = Upcoming \<Longrightarrow> upcomingStartMs r = Some t \<Longrightarrow> t \<noteq> 0 \<Longrightarrow>
     cacheSeconds graceMs now r = upcomingCacheSeconds graceMs now t"
  by (simp add: cacheSeconds_def)

lemma upcomingCacheSeconds_tiers:
  "(t - now > 7200000 \<longrightarrow> upcomingCacheSeconds graceMs now t = 1800)
   \<and> (1800000 < t - now \<and> t - now \<le> 7200000 \<longrightarrow> upcomingCacheSeconds graceMs now t = 300)
   \<and> (t - now = 5400000 \<longrightarrow> upcomingCacheSeconds graceMs now t = 300)
   \<and> (0 < t - now \<and> t - now \<le> 1800000 \<longrightarrow> upcomingCacheSeconds graceMs now t = 20)
   \<and> (t - now \<le> 0 \<and> now - t \<le> graceMs \<longrightarrow> upcomingCacheSeconds graceMs now t = 5)"
  by (auto simp: upcomingCacheSeconds_def Let_def)

lemma cacheSeconds_other:
  "state r \<noteq> Upcoming \<Longrightarrow> cacheSeconds graceMs now r = stateCacheSeconds (state r)"
  by (simp add: cacheSeconds_def split: option.splits)

text \<open>
  For a start time of 0 the guard \<open>result.upcomingStartMs\<close> is false and the result gets the
  lifetime of its state; by \<open>upcoming_start_positive\<close> the selection returns no such result
  once the clock is past the grace window.
\<close>

lemma cacheSeconds_zero_start:
  "cacheSeconds graceMs now \<lparr>state = Upcoming, videoId = i, upcomingStartMs = Some 0\<rparr> = 600"
  by (simp add: cacheSeconds_def stateCacheSeconds_def)

text \<open>
  With distinct ids, the grace-window selection never returns the id of an ended video as
  live or upcoming.
\<close>

lemma grace_variant_skips_ended:
  assumes d: "distinct (map video_id videos)"
    and st: "state (pickStateFromVideos dparse graceMs now videos) = Live
           \<or> state (pickStateFromVideos dparse graceMs now videos) = Upcoming"
    and v: "v \<in> set videos" "ended v"
  shows "videoId (pickStateFromVideos dparse graceMs now videos) \<noteq> Some (video_id v)"
proof -
  have uniq: "\<And>u. u \<in> set videos \<Longrightarrow> video_id u = video_id v \<Longrightarrow> u = v"
    using d v(1) by (meson distinct_map inj_onD)
  show ?thesis
  proof (cases "find isLiveNow videos")
    case (Some a)
    then have "a \<in> set videos" "isLiveNow a" by (auto simp: find_Some_iff)
    with uniq v(2) have "video_id a \<noteq> video_id v" by (auto simp: isLiveNow_def ended_def)
    with Some show ?thesis by (simp add: pickStateFromVideos_def)
  next
    case None
    show ?thesis
    proof (cases "upcomingGrace graceMs now (scheduled dparse videos)")
      case (Some g)
      from upcomingGrace_Some(1) [OF Some] uniq v(2) have "s_id g \<noteq> video_id v"
        by (auto simp: grace_candidate_def)
      with None Some show ?thesis by (simp add: pickStateFromVideos_def)
    next
      case gN: None
      show ?thesis
      proof (cases "upcomingFuture now (scheduled dparse videos)")
        case (Some p)
        from upcomingFuture_Some(1) [OF Some] uniq v(2) have "s_id p \<noteq> video_id v"
          by (auto simp: future_candidate_def)
        with None gN Some show ?thesis by (simp add: pickStateFromVideos_def)
      next
        case fN: None
        with None gN st show ?thesis
          by (simp add: pickStateFromVideos_def split: option.splits)
      qed
    qed
  qed
qed

subsection \<open>The call log\<close>

lemma fetchJson_fresh: "fetchJson ep outcome s = (r, s') \<Longrightarrow> fresh s s' r"
  by (auto simp: fetchJson_def fresh_def split: sum.splits)

lemma fresh_refl: "fresh s s r"
  by (simp add: fresh_def)

lemma fresh_Inr_trans: "fresh s s1 (Inr x) \<Longrightarrow> fresh s1 s2 r \<Longrightarrow> fresh s s2 r"
  by (fastforce simp: fresh_def split: sum.splits)

lemma fresh_Inl_conv: "fresh s s' (Inl e :: exn + 'a) \<Longrightarrow> fresh s s' (Inl e :: exn + 'b)"
  by (simp add: fresh_def)

lemma fresh_Inr_conv: "fresh s s' (Inr x :: exn + 'a) \<Longrightarrow> fresh s s' (Inr y :: exn + 'b)"
  by (simp add: fresh_def)

lemma fresh_cached: "fresh s s' r \<Longrightarrow> fresh s (s'\<lparr>cachedUploadsPlaylistId := c\<rparr>) r"
  by (simp add: fresh_def)

lemma fresh_no_failure:
  "fresh s s' (Inr x) \<Longrightarrow> fresh s s' (Inl e)"
  by (auto simp: fresh_def)

lemma lookupUploads_fresh: "lookupUploads w s = (r, s') \<Longrightarrow> fresh s s' r"
  unfolding lookupUploads_def
  by (auto split: prod.splits sum.splits option.splits if_splits
      dest!: fetchJson_fresh intro: fresh_Inl_conv fresh_Inr_conv fresh_cached fresh_no_failure)

lemma getUploadsPlaylistId_fresh: "getUploadsPlaylistId w s = (r, s') \<Longrightarrow> fresh s s' r"
  unfolding getUploadsPlaylistId_def
  by (auto split: option.splits if_splits intro: fresh_refl lookupUploads_fresh)

lemma listRecentUploadVideoIds_fresh:
  "listRecentUploadVideoIds w n s = (r, s') \<Longrightarrow> fresh s s' r"
  unfolding listRecentUploadVideoIds_def
  by (auto split: prod.splits sum.splits
      dest!: getUploadsPlaylistId_fresh fetchJson_fresh
      intro: fresh_Inl_conv fresh_Inr_trans fresh_Inr_conv)

lemma getLiveStreamingDetails_fresh:
  "getLiveStreamingDetails w ids s = (r, s') \<Longrightarrow> fresh s s' r"
  unfolding getLiveStreamingDetails_def
  by (auto split: prod.splits sum.splits if_splits
      dest!: fetchJson_fresh intro: fresh_Inl_conv fresh_Inr_conv fresh_refl)

lemma handler_try_fresh: "handler_try en w s = (r, s') \<Longrightarrow> fresh s s' r"
  unfolding handler_try_def Let_def
  by (auto split: prod.splits sum.splits if_splits
      dest!: listRecentUploadVideoIds_fresh getLiveStreamingDetails_fresh
      intro: fresh_Inl_conv fresh_Inr_trans fresh_Inr_conv fresh_refl)

lemma ytSearch_fresh: "ytSearch w ev n s = (r, s') \<Longrightarrow> fresh s s' r"
  unfolding ytSearch_def by (rule fetchJson_fresh)

lemma pickSoonestUpcoming_fresh: "pickSoonestUpcoming w n s = (r, s') \<Longrightarrow> fresh s s' r"
  unfolding pickSoonestUpcoming_def Let_def
  by (auto split: prod.splits sum.splits if_splits
      dest!: ytSearch_fresh fetchJson_fresh
      intro: fresh_Inl_conv fresh_Inr_trans fresh_Inr_conv)

lemma search_replay_fresh: "search_replay w s = (r, s') \<Longrightarrow> fresh s s' r"
  unfolding search_replay_def
  by (auto split: prod.splits sum.splits if_splits
      dest!: ytSearch_fresh
      intro: fresh_Inl_conv fresh_Inr_conv fresh_no_failure)

lemma search_handler_try_fresh: "search_handler_try en w s = (r, s') \<Longrightarrow> fresh s s' r"
  unfolding search_handler_try_def Let_def
  by (auto split: prod.splits sum.splits if_splits option.splits
      dest!: ytSearch_fresh pickSoonestUpcoming_fresh search_replay_fresh
      intro: fresh_Inl_conv fresh_Inr_trans fresh_Inr_conv fresh_refl fresh_no_failure)

lemma handler_failure:
  assumes "\<exists>c\<in>set (calls (snd (handler en req w cached))). failure c \<noteq> None"
  shows "fst (handler en req w cached) = json 200 (failureBody w) 600"
proof -
  let ?s = "\<lparr>cachedUploadsPlaylistId = cached, calls = []\<rparr>"
  from assms have m: "http_method req \<noteq> ''OPTIONS''"
    by (auto simp: handler_def Let_def)
  obtain r s1 where t: "handler_try en w ?s = (r, s1)" by (cases "handler_try en w ?s")
  from handler_try_fresh [OF t] have fr: "fresh ?s s1 r" .
  show ?thesis
  proof (cases r)
    case (Inl e)
    with t m show ?thesis by (simp add: handler_def failureBody_def)
  next
    case (Inr resp)
    with fr have "\<forall>c\<in>set (calls s1). failure c = None" by (simp add: fresh_def)
    moreover from t m Inr have "snd (handler en req w cached) = s1" by (simp add: handler_def)
    ultimately show ?thesis using assms by auto
  qed
qed

lemma search_handler_failure:
  assumes "\<exists>c\<in>set (calls (snd (search_handler en req w))). failure c = Some e"
  shows "fst (search_handler en req w) =
           (if debugFlag req then
              \<lparr>r_status = 200, r_cors = True, r_cacheControl = Some NoStore,
               r_body = Some ((stateBody noneResult)\<lparr>b_debugError := Some (exn_text e)\<rparr>)\<rparr>
            else json 200 (stateBody noneResult) 600)"
proof -
  let ?s = "\<lparr>cachedUploadsPlaylistId = None, calls = []\<rparr>"
  from assms have m: "http_method req \<noteq> ''OPTIONS''"
    by (auto simp: search_handler_def Let_def)
  obtain r s1 where t: "search_handler_try en w ?s = (r, s1)"
    by (cases "search_handler_try en w ?s")
  from search_handler_try_fresh [OF t] have fr: "fresh ?s s1 r" .
  from t m have s1: "snd (search_handler en req w) = s1"
    by (auto simp: search_handler_def split: sum.splits)
  show ?thesis
  proof (cases r)
    case (Inl e')
    with fr assms s1 have "e' = e" by (auto simp: fresh_def)
    with Inl t m show ?thesis by (simp add: search_handler_def)
  next
    case (Inr resp)
    with fr have "\<forall>c\<in>set (calls s1). failure c = None" by (simp add: fresh_def)
    with s1 assms show ?thesis by auto
  qed
qed

subsection \<open>The memoized playlist id\<close>

lemma getUploadsPlaylistId_success:
  assumes "getUploadsPlaylistId w s = (Inr p, s')"
  shows "cachedUploadsPlaylistId s' = Some p \<and> p \<noteq> []"
  using assms unfolding getUploadsPlaylistId_def lookupUploads_def fetchJson_def
  by (auto split: option.splits if_splits sum.splits)

lemma getUploadsPlaylistId_cached:
  "cachedUploadsPlaylistId s = Some p \<Longrightarrow> p \<noteq> [] \<Longrightarrow> getUploadsPlaylistId w s = (Inr p, s)"
  by (simp add: getUploadsPlaylistId_def)

lemma callsFrom_cached:
  "cachedUploadsPlaylistId s = Some p \<Longrightarrow> p \<noteq> [] \<Longrightarrow>
     callsFrom ws s = (replicate (length ws) (Inr p), s)"
  by (induction ws) (simp_all add: getUploadsPlaylistId_cached)

lemma getUploadsPlaylistId_error:
  assumes "getUploadsPlaylistId w s = (Inl e, s')"
  shows "cachedUploadsPlaylistId s' = cachedUploadsPlaylistId s"
  using assms unfolding getUploadsPlaylistId_def lookupUploads_def fetchJson_def
  by (auto split: option.splits if_splits sum.splits)

lemma getUploadsPlaylistId_unresolved:
  assumes "\<not> truthy (cachedUploadsPlaylistId s)" "channelsList w = Inr data"
    "\<not> truthy (uploadsOf data)"
  shows "fst (getUploadsPlaylistId w s) = Inl (Error ''Could not resolve uploads playlist ID'')"
  using assms unfolding getUploadsPlaylistId_def lookupUploads_def fetchJson_def truthy_def
  by (auto split: option.splits if_splits sum.splits)

section \<open>Properties\<close>

text \<open>
  Claim C1. If some candidate has \<open>actualStartTime\<close> present and \<open>actualEndTime\<close> absent,
  the selection is live with the id of the first such candidate in input order and no
  start time, whatever the other candidates, the clock and the grace window are.
\<close>

theorem C1_live:
  assumes "videos = pre @ v # post"
    and "started v" and "\<not> ended v"
    and "\<forall>u\<in>set pre. \<not> (started u \<and> \<not> ended u)"
  shows "pickStateFromVideos dparse graceMs now videos =
           \<lparr>state = Live, videoId = Some (video_id v), upcomingStartMs = None\<rparr>"
proof -
  from assms have "find isLiveNow videos = Some v"
    by (simp add: find_first_match isLiveNow_def started_def ended_def)
  then show ?thesis by (simp add: pickStateFromVideos_def)
qed

theorem C1_witness:
  "pickStateFromVideos demo_parse 600000 1893491820000 [early_finisher, live_video, future_video]
     = \<lparr>state = Live, videoId = Some ''live'', upcomingStartMs = None\<rparr>"
proof -
  have a: "started live_video" "\<not> ended live_video"
    by (simp_all add: claim_defs truthy_def chain_def video_defs)
  have b: "\<forall>u\<in>set [early_finisher]. \<not> (started u \<and> \<not> ended u)"
    by (simp add: claim_defs truthy_def chain_def video_defs)
  have c: "[early_finisher, live_video, future_video] = [early_finisher] @ live_video # [future_video]"
    by simp
  from C1_live [OF c a b, of demo_parse 600000 1893491820000] show ?thesis
    by (simp add: live_video_def)
qed

text \<open>
  Claim C2. With no live candidate: if some candidate is a grace candidate (not ended, not
  started, its scheduled start \<open>t\<close> parses, \<open>t \<le> now\<close> and \<open>now - t \<le> graceMs\<close>), the
  selection is upcoming with the id and the scheduled start of a grace candidate whose
  \<open>t\<close> is largest, also when a future candidate exists; otherwise, if some candidate is a
  future candidate (not ended, \<open>t\<close> parses, \<open>now < t\<close>), the selection is upcoming with the
  id and the scheduled start of a future candidate whose \<open>t\<close> is smallest.
\<close>

theorem C2_upcoming:
  assumes nolive: "\<forall>v\<in>set videos. \<not> (started v \<and> \<not> ended v)"
  shows "((\<exists>v\<in>set videos. \<exists>t. grace_candidate dparse graceMs now v t) \<longrightarrow>
            (\<exists>v\<in>set videos. \<exists>t. grace_candidate dparse graceMs now v t \<and>
               (\<forall>u\<in>set videos. \<forall>s. grace_candidate dparse graceMs now u s \<longrightarrow> s \<le> t) \<and>
               pickStateFromVideos dparse graceMs now videos =
                 \<lparr>state = Upcoming, videoId = Some (video_id v), upcomingStartMs = Some t\<rparr>))
       \<and> (\<not> (\<exists>v\<in>set videos. \<exists>t. grace_candidate dparse graceMs now v t) \<and>
            (\<exists>v\<in>set videos. \<exists>t. future_candidate dparse now v t) \<longrightarrow>
            (\<exists>v\<in>set videos. \<exists>t. future_candidate dparse now v t \<and>
               (\<forall>u\<in>set videos. \<forall>s. future_candidate dparse now u s \<longrightarrow> t \<le> s) \<and>
               pickStateFromVideos dparse graceMs now videos =
                 \<lparr>state = Upcoming, videoId = Some (video_id v), upcomingStartMs = Some t\<rparr>))"
proof -
  from nolive have nl: "find isLiveNow videos = None"
    by (simp add: find_None_iff isLiveNow_def started_def ended_def)
  let ?sch = "scheduled dparse videos"
  show ?thesis
  proof (cases "upcomingGrace graceMs now ?sch")
    case None
    note gN = upcomingGrace_None [OF None]
    show ?thesis
    proof (cases "upcomingFuture now ?sch")
      case None2: None
      from upcomingFuture_None [OF None2] gN show ?thesis by blast
    next
      case (Some p)
      from upcomingFuture_Some [OF Some] obtain v where
        v: "v \<in> set videos" "future_candidate dparse now v (s_t p)" "s_id p = video_id v"
        and mn: "\<forall>u\<in>set videos. \<forall>s. future_candidate dparse now u s \<longrightarrow> s_t p \<le> s"
        by blast
      have "pickStateFromVideos dparse graceMs now videos =
              \<lparr>state = Upcoming, videoId = Some (video_id v), upcomingStartMs = Some (s_t p)\<rparr>"
        using nl None Some v(3) by (simp add: pickStateFromVideos_def)
      with v mn gN show ?thesis by blast
    qed
  next
    case (Some g)
    from upcomingGrace_Some [OF Some] obtain v where
      v: "v \<in> set videos" "grace_candidate dparse graceMs now v (s_t g)" "s_id g = video_id v"
      and mx: "\<forall>u\<in>set videos. \<forall>s. grace_candidate dparse graceMs now u s \<longrightarrow> s \<le> s_t g"
      by blast
    have "pickStateFromVideos dparse graceMs now videos =
            \<lparr>state = Upcoming, videoId = Some (video_id v), upcomingStartMs = Some (s_t g)\<rparr>"
      using nl Some v(3) by (simp add: pickStateFromVideos_def)
    with v mx show ?thesis by blast
  qed
qed

theorem C2_witness:
  "(\<exists>v\<in>set [future_video, late_starter]. \<exists>t.
      grace_candidate demo_parse 600000 1893490440000 v t \<and>
      pickStateFromVideos demo_parse 600000 1893490440000 [future_video, late_starter] =
        \<lparr>state = Upcoming, videoId = Some (video_id v), upcomingStartMs = Some t\<rparr>)
   \<and> (\<exists>v\<in>set [early_finisher, future_video]. \<exists>t.
      future_candidate demo_parse 1893490440000 v t \<and>
      pickStateFromVideos demo_parse 600000 1893490440000 [early_finisher, future_video] =
        \<lparr>state = Upcoming, videoId = Some (video_id v), upcomingStartMs = Some t\<rparr>)"
proof -
  have a: "\<forall>v\<in>set [future_video, late_starter]. \<not> (started v \<and> \<not> ended v)"
    by (simp add: sel_defs video_defs)
  have b: "\<exists>v\<in>set [future_video, late_starter]. \<exists>t.
             grace_candidate demo_parse 600000 1893490440000 v t"
    by (simp add: sel_defs video_defs)
  have c: "\<forall>v\<in>set [early_finisher, future_video]. \<not> (started v \<and> \<not> ended v)"
    by (simp add: sel_defs video_defs)
  have d: "\<not> (\<exists>v\<in>set [early_finisher, future_video]. \<exists>t.
             grace_candidate demo_parse 600000 1893490440000 v t)"
    by (simp add: sel_defs video_defs)
  have e: "\<exists>v\<in>set [early_finisher, future_video]. \<exists>t.
             future_candidate demo_parse 1893490440000 v t"
    by (simp add: sel_defs video_defs)
  from C2_upcoming [OF a, of demo_parse 600000 1893490440000] b
  have 1: "\<exists>v\<in>set [future_video, late_starter]. \<exists>t.
      grace_candidate demo_parse 600000 1893490440000 v t \<and>
      pickStateFromVideos demo_parse 600000 1893490440000 [future_video, late_starter] =
        \<lparr>state = Upcoming, videoId = Some (video_id v), upcomingStartMs = Some t\<rparr>"
    by blast
  from C2_upcoming [OF c, of demo_parse 600000 1893490440000] d e
  have 2: "\<exists>v\<in>set [early_finisher, future_video]. \<exists>t.
      future_candidate demo_parse 1893490440000 v t \<and>
      pickStateFromVideos demo_parse 600000 1893490440000 [early_finisher, future_video] =
        \<lparr>state = Upcoming, videoId = Some (video_id v), upcomingStartMs = Some t\<rparr>"
    by blast
  from 1 2 show ?thesis by (rule conjI)
qed

text \<open>
  Claim C3, as stated, says that an end time that does not parse ranks below every end
  time that parses. The code ranks it as 0, the epoch: here the video that ended in 1969
  loses against the one whose end time does not parse.
\<close>

theorem C3_counterexample:
  "pickStateFromVideos demo_parse 600000 1893491820000 [ended_1969, ended_garbled] =
     \<lparr>state = Replay, videoId = Some ''garbled'', upcomingStartMs = None\<rparr>
   \<and> endMs demo_parse ended_1969 = Some (- 1000)
   \<and> endMs demo_parse ended_garbled = None"
  by (simp add: model_defs demo_parse_def ended_1969_def ended_garbled_def endMs_def)

text \<open>
  Claim C3, amended. With no live, grace or future candidate and some ended candidate, the
  selection is a replay, with no start time, of the ended candidate whose key is largest,
  where the key is the parsed \<open>actualEndTime\<close>, or 0 when it does not parse; among equal
  keys the first in input order wins.
\<close>

theorem C3_replay:
  assumes nolive: "\<forall>v\<in>set videos. \<not> (started v \<and> \<not> ended v)"
    and nograce: "\<forall>v\<in>set videos. \<forall>t. \<not> grace_candidate dparse graceMs now v t"
    and nofuture: "\<forall>v\<in>set videos. \<forall>t. \<not> future_candidate dparse now v t"
    and some: "\<exists>v\<in>set videos. ended v"
  shows "\<exists>pre c post. videos = pre @ c # post \<and> ended c
           \<and> (\<forall>u\<in>set pre. ended u \<longrightarrow> endKey dparse u < endKey dparse c)
           \<and> (\<forall>u\<in>set post. ended u \<longrightarrow> endKey dparse u \<le> endKey dparse c)
           \<and> pickStateFromVideos dparse graceMs now videos =
               \<lparr>state = Replay, videoId = Some (video_id c), upcomingStartMs = None\<rparr>"
proof -
  from nolive have nl: "find isLiveNow videos = None"
    by (simp add: find_None_iff isLiveNow_def started_def ended_def)
  have g: "upcomingGrace graceMs now (scheduled dparse videos) = None"
  proof (cases "upcomingGrace graceMs now (scheduled dparse videos)")
    case (Some g)
    from upcomingGrace_Some(1) [OF Some] nograce show ?thesis by blast
  qed simp
  have f: "upcomingFuture now (scheduled dparse videos) = None"
  proof (cases "upcomingFuture now (scheduled dparse videos)")
    case (Some p)
    from upcomingFuture_Some(1) [OF Some] nofuture show ?thesis by blast
  qed simp
  from some obtain c where c: "completed dparse videos = Some c"
    using completed_None [of dparse videos] by (cases "completed dparse videos") auto
  have "pickStateFromVideos dparse graceMs now videos =
          \<lparr>state = Replay, videoId = Some (video_id c), upcomingStartMs = None\<rparr>"
    using nl g f c by (simp add: pickStateFromVideos_def)
  with completed_Some [OF c] show ?thesis by blast
qed

theorem C3_witness:
  "\<exists>c\<in>set [ended_1969, early_finisher]. ended c \<and>
      pickStateFromVideos demo_parse 600000 1893491820000 [ended_1969, early_finisher] =
        \<lparr>state = Replay, videoId = Some (video_id c), upcomingStartMs = None\<rparr>"
proof -
  have a: "\<forall>v\<in>set [ended_1969, early_finisher]. \<not> (started v \<and> \<not> ended v)"
    by (simp add: sel_defs video_defs)
  have b: "\<forall>v\<in>set [ended_1969, early_finisher]. \<forall>t.
             \<not> grace_candidate demo_parse 600000 1893491820000 v t"
    by (simp add: sel_defs video_defs)
  have c: "\<forall>v\<in>set [ended_1969, early_finisher]. \<forall>t.
             \<not> future_candidate demo_parse 1893491820000 v t"
    by (simp add: sel_defs video_defs)
  have d: "\<exists>v\<in>set [ended_1969, early_finisher]. ended v"
    by (simp add: sel_defs video_defs)
  from C3_replay [OF a b c d] obtain pre c post where
    "[ended_1969, early_finisher] = pre @ c # post" "ended c"
    "pickStateFromVideos demo_parse 600000 1893491820000 [ended_1969, early_finisher] =
        \<lparr>state = Replay, videoId = Some (video_id c), upcomingStartMs = None\<rparr>"
    by blast
  moreover from this(1) have "c \<in> set [ended_1969, early_finisher]"
    by (metis in_set_conv_decomp)
  ultimately show ?thesis by blast
qed

text \<open>
  Claim C4 on \<open>api/livestream.js\<close>. A broadcast scheduled for 10:00 that ran from 09:30
  to 09:55 is, at 09:57, selected as upcoming by the selection without the grace window:
  its upcoming rule does not look at \<open>actualEndTime\<close>. The grace-window selection returns
  it as the replay (and never as live or upcoming: \<open>grace_variant_skips_ended\<close>).
\<close>

theorem C4_livestream_js_picks_ended:
  "pickStateFromVideos_livestream demo_parse 1893491820000 [early_finisher] =
     \<lparr>state = Upcoming, videoId = Some ''early'', upcomingStartMs = Some 1893492000000\<rparr>
   \<and> ended early_finisher
   \<and> pickStateFromVideos demo_parse 600000 1893491820000 [early_finisher] =
     \<lparr>state = Replay, videoId = Some ''early'', upcomingStartMs = None\<rparr>"
  by (simp add: pickStateFromVideos_livestream_def upcoming_livestream_def model_defs
      demo_parse_def early_finisher_def ended_def)

text \<open>
  Claim C5. The lifetime the handler derives from the selection, for a grace window that
  is not negative and a clock past it. For an upcoming selection with start time \<open>t\<close> and
  \<open>diff = t - now'\<close>, where \<open>now'\<close> is the clock reading of the derivation: 1800 seconds
  (thirty minutes) when \<open>diff\<close> is over two hours, 300 seconds (five minutes) when it is
  over thirty minutes and at most two hours, so at ninety minutes, 20 seconds when it is
  positive and at most thirty minutes, 5 seconds when it is at most 0 and within the grace
  window. A live selection gets 10 seconds, a replay and none get 600 seconds (ten
  minutes).
\<close>

theorem C5_tiers:
  assumes "0 \<le> graceMs" and "graceMs < now"
  shows "(state (pickStateFromVideos dparse graceMs now videos) = Upcoming \<longrightarrow>
           (\<exists>t. upcomingStartMs (pickStateFromVideos dparse graceMs now videos) = Some t
              \<and> (t - now' > 7200000 \<longrightarrow>
                   cacheSeconds graceMs now' (pickStateFromVideos dparse graceMs now videos) = 1800)
              \<and> (1800000 < t - now' \<and> t - now' \<le> 7200000 \<longrightarrow>
                   cacheSeconds graceMs now' (pickStateFromVideos dparse graceMs now videos) = 300)
              \<and> (t - now' = 5400000 \<longrightarrow>
                   cacheSeconds graceMs now' (pickStateFromVideos dparse graceMs now videos) = 300)
              \<and> (0 < t - now' \<and> t - now' \<le> 1800000 \<longrightarrow>
                   cacheSeconds graceMs now' (pickStateFromVideos dparse graceMs now videos) = 20)
              \<and> (t - now' \<le> 0 \<and> now' - t \<le> graceMs \<longrightarrow>
                   cacheSeconds graceMs now' (pickStateFromVideos dparse graceMs now videos) = 5)))
       \<and> (state (pickStateFromVideos dparse graceMs now videos) = Live \<longrightarrow>
           cacheSeconds graceMs now' (pickStateFromVideos dparse graceMs now videos) = 10)
       \<and> (state (pickStateFromVideos dparse graceMs now videos) = Replay
            \<or> state (pickStateFromVideos dparse graceMs now videos) = NoState \<longrightarrow>
           cacheSeconds graceMs now' (pickStateFromVideos dparse graceMs now videos) = 600)"
proof (intro conjI impI)
  let ?r = "pickStateFromVideos dparse graceMs now videos"
  assume up: "state ?r = Upcoming"
  from upcoming_start_positive [OF assms up] obtain t where
    t: "upcomingStartMs ?r = Some t" "0 < t" by blast
  then have "cacheSeconds graceMs now' ?r = upcomingCacheSeconds graceMs now' t"
    using up by (simp add: cacheSeconds_upcoming)
  with t(1) upcomingCacheSeconds_tiers [of t now' graceMs]
  show "\<exists>t. upcomingStartMs ?r = Some t
              \<and> (t - now' > 7200000 \<longrightarrow> cacheSeconds graceMs now' ?r = 1800)
              \<and> (1800000 < t - now' \<and> t - now' \<le> 7200000 \<longrightarrow> cacheSeconds graceMs now' ?r = 300)
              \<and> (t - now' = 5400000 \<longrightarrow> cacheSeconds graceMs now' ?r = 300)
              \<and> (0 < t - now' \<and> t - now' \<le> 1800000 \<longrightarrow> cacheSeconds graceMs now' ?r = 20)
              \<and> (t - now' \<le> 0 \<and> now' - t \<le> graceMs \<longrightarrow> cacheSeconds graceMs now' ?r = 5)"
    by (intro exI [of _ t]) simp
next
  let ?r = "pickStateFromVideos dparse graceMs now videos"
  assume "state ?r = Live"
  then show "cacheSeconds graceMs now' ?r = 10"
    by (simp add: cacheSeconds_other stateCacheSeconds_def)
next
  let ?r = "pickStateFromVideos dparse graceMs now videos"
  assume "state ?r = Replay \<or> state ?r = NoState"
  then show "cacheSeconds graceMs now' ?r = 600"
    by (auto simp: cacheSeconds_other stateCacheSeconds_def)
qed

theorem C5_witness:
  "cacheSeconds 600000 1893481200001
     (pickStateFromVideos demo_parse 600000 1893481200000 [early_finisher, future_video]) = 1800
   \<and> cacheSeconds 600000 1893486600000
     (pickStateFromVideos demo_parse 600000 1893486599000 [early_finisher, future_video]) = 300
   \<and> cacheSeconds 600000 1893491400001
     (pickStateFromVideos demo_parse 600000 1893491400000 [early_finisher, future_video]) = 20
   \<and> cacheSeconds 600000 1893490440001
     (pickStateFromVideos demo_parse 600000 1893490440000 [future_video, late_starter]) = 5
   \<and> cacheSeconds 600000 1893491820001
     (pickStateFromVideos demo_parse 600000 1893491820000 [early_finisher, live_video]) = 10
   \<and> cacheSeconds 600000 1893491820001
     (pickStateFromVideos demo_parse 600000 1893491820000 [early_finisher]) = 600
   \<and> cacheSeconds 600000 1893491820001
     (pickStateFromVideos demo_parse 600000 1893491820000 []) = 600"
proof -
  have g: "(0::int) \<le> 600000" by simp
  have n: "(600000::int) < 1893481200000" "(600000::int) < 1893486599000"
    "(600000::int) < 1893491400000" "(600000::int) < 1893490440000"
    "(600000::int) < 1893491820000" by simp_all
  have p1: "pickStateFromVideos demo_parse 600000 1893481200000 [early_finisher, future_video] =
              \<lparr>state = Upcoming, videoId = Some ''future'', upcomingStartMs = Some 1893492000000\<rparr>"
    by (simp add: model_defs video_defs)
  have p2: "pickStateFromVideos demo_parse 600000 1893486599000 [early_finisher, future_video] =
              \<lparr>state = Upcoming, videoId = Some ''future'', upcomingStartMs = Some 1893492000000\<rparr>"
    by (simp add: model_defs video_defs)
  have p3: "pickStateFromVideos demo_parse 600000 1893491400000 [early_finisher, future_video] =
              \<lparr>state = Upcoming, videoId = Some ''future'', upcomingStartMs = Some 1893492000000\<rparr>"
    by (simp add: model_defs video_defs)
  have p4: "pickStateFromVideos demo_parse 600000 1893490440000 [future_video, late_starter] =
              \<lparr>state = Upcoming, videoId = Some ''late'', upcomingStartMs = Some 1893490200000\<rparr>"
    by (simp add: model_defs video_defs)
  have p5: "pickStateFromVideos demo_parse 600000 1893491820000 [early_finisher, live_video] =
              \<lparr>state = Live, videoId = Some ''live'', upcomingStartMs = None\<rparr>"
    by (simp add: model_defs video_defs)
  have p6: "pickStateFromVideos demo_parse 600000 1893491820000 [early_finisher] =
              \<lparr>state = Replay, videoId = Some ''early'', upcomingStartMs = None\<rparr>"
    by (simp add: model_defs video_defs)
  have p7: "pickStateFromVideos demo_parse 600000 1893491820000 [] =
              \<lparr>state = NoState, videoId = None, upcomingStartMs = None\<rparr>"
    by (simp add: model_defs video_defs)
  have 1: "cacheSeconds 600000 1893481200001
     (pickStateFromVideos demo_parse 600000 1893481200000 [early_finisher, future_video]) = 1800"
    using C5_tiers [OF g n(1), of demo_parse "[early_finisher, future_video]" 1893481200001]
    by (simp add: p1)
  have 2: "cacheSeconds 600000 1893486600000
     (pickStateFromVideos demo_parse 600000 1893486599000 [early_finisher, future_video]) = 300"
    using C5_tiers [OF g n(2), of demo_parse "[early_finisher, future_video]" 1893486600000]
    by (simp add: p2)
  have 3: "cacheSeconds 600000 1893491400001
     (pickStateFromVideos demo_parse 600000 1893491400000 [early_finisher, future_video]) = 20"
    using C5_tiers [OF g n(3), of demo_parse "[early_finisher, future_video]" 1893491400001]
    by (simp add: p3)
  have 4: "cacheSeconds 600000 1893490440001
     (pickStateFromVideos demo_parse 600000 1893490440000 [future_video, late_starter]) = 5"
    using C5_tiers [OF g n(4), of demo_parse "[future_video, late_starter]" 1893490440001]
    by (simp add: p4)
  have 5: "cacheSeconds 600000 1893491820001
     (pickStateFromVideos demo_parse 600000 1893491820000 [early_finisher, live_video]) = 10"
    using C5_tiers [OF g n(5), of demo_parse "[early_finisher, live_video]" 1893491820001]
    by (simp add: p5)
  have 6: "cacheSeconds 600000 1893491820001
     (pickStateFromVideos demo_parse 600000 1893491820000 [early_finisher]) = 600"
    using C5_tiers [OF g n(5), of demo_parse "[early_finisher]" 1893491820001]
    by (simp add: p6)
  have 7: "cacheSeconds 600000 1893491820001
     (pickStateFromVideos demo_parse 600000 1893491820000 []) = 600"
    using C5_tiers [OF g n(5), of demo_parse "[]" 1893491820001]
    by (simp add: p7)
  from 1 2 3 4 5 6 7 show ?thesis by blast
qed

text \<open>
  Claim C6, as stated, has the debug flag change the response of a failed request. The
  grace-window handler does not read the flag: with \<open>debug=1\<close> and a failing channels
  lookup it answers with the cached default and no \<open>debugError\<close>.
\<close>

theorem C6_counterexample:
  "debugFlag debug_request
   \<and> calls (snd (handler good_env debug_request quota_world None)) =
       [\<lparr>endpoint = Channels, failure = Some (Error ''403 :: quotaExceeded'')\<rparr>]
   \<and> fst (handler good_env debug_request quota_world None) =
       \<lparr>r_status = 200, r_cors = True, r_cacheControl = Some (SMaxage 600 30),
        r_body = Some \<lparr>b_error = None, b_result = Some noneResult, b_debugError = None,
                       b_generatedAt = Some ''2030-01-01T09:57:00.000Z'',
                       b_youtubeFetchedAt = None\<rparr>\<rparr>"
  by (simp add: handler_defs json_def)

text \<open>
  Claim C6, amended. When an external call of a request throws, both handlers answer with
  status 200 and state none, no video id and no start time. The search-based handler
  sends it with \<open>s-maxage=600\<close>, unless the debug flag is set: then the body carries the
  text of the exception as \<open>debugError\<close> and the header is \<open>no-store\<close>. The grace-window
  handler sends it with \<open>s-maxage=600\<close> whatever the query is.
\<close>

theorem C6_failure_response:
  "((\<exists>c\<in>set (calls (snd (search_handler en req w))). failure c = Some e) \<longrightarrow>
      fst (search_handler en req w) =
        (if debugFlag req then
           \<lparr>r_status = 200, r_cors = True, r_cacheControl = Some NoStore,
            r_body = Some ((stateBody noneResult)\<lparr>b_debugError := Some (exn_text e)\<rparr>)\<rparr>
         else json 200 (stateBody noneResult) 600))
   \<and> ((\<exists>c\<in>set (calls (snd (handler en req w cached))). failure c \<noteq> None) \<longrightarrow>
      fst (handler en req w cached) = json 200 (failureBody w) 600)"
  using search_handler_failure [of en req w e] handler_failure [of en req w cached] by blast

theorem C6_witness:
  "fst (search_handler good_env debug_request quota_world) =
       \<lparr>r_status = 200, r_cors = True, r_cacheControl = Some NoStore,
        r_body = Some \<lparr>b_error = None, b_result = Some noneResult,
                       b_debugError = Some ''403 :: quotaExceeded'',
                       b_generatedAt = None, b_youtubeFetchedAt = None\<rparr>\<rparr>
   \<and> fst (search_handler good_env (debug_request\<lparr>query := None\<rparr>) quota_world) =
       json 200 (stateBody noneResult) 600
   \<and> fst (handler good_env debug_request quota_world None) =
       json 200 (failureBody quota_world) 600"
proof -
  have a: "\<exists>c\<in>set (calls (snd (search_handler good_env debug_request quota_world))).
             failure c = Some (Error ''403 :: quotaExceeded'')"
    by (simp add: handler_defs)
  have b: "\<exists>c\<in>set (calls (snd (search_handler good_env (debug_request\<lparr>query := None\<rparr>)
             quota_world))). failure c = Some (Error ''403 :: quotaExceeded'')"
    by (simp add: handler_defs)
  have c: "\<exists>c\<in>set (calls (snd (handler good_env debug_request quota_world None))).
             failure c \<noteq> None"
    by (simp add: handler_defs)
  have d: "debugFlag debug_request" "\<not> debugFlag (debug_request\<lparr>query := None\<rparr>)"
    by (simp_all add: debugFlag_def debug_request_def)
  from a b c d
    C6_failure_response [of good_env debug_request quota_world "Error ''403 :: quotaExceeded''" None]
    C6_failure_response [of good_env "debug_request\<lparr>query := None\<rparr>" quota_world
      "Error ''403 :: quotaExceeded''" None]
  show ?thesis by (simp add: exn_text_def stateBody_def)
qed

text \<open>
  Claim C7. When nothing is memoized and the lookup returns a document without an uploads
  playlist id, \<open>getUploadsPlaylistId\<close> throws and the memoized value stays as it was. After
  a call that returned \<open>p\<close>, every later call, in any world, returns \<open>p\<close> and leaves the
  state, the call log included, unchanged: it performs no lookup.
\<close>

theorem C7_memo:
  "(\<not> truthy (cachedUploadsPlaylistId s) \<and> channelsList w = Inr data \<and> \<not> truthy (uploadsOf data)
      \<longrightarrow> fst (getUploadsPlaylistId w s) = Inl (Error ''Could not resolve uploads playlist ID'')
          \<and> cachedUploadsPlaylistId (snd (getUploadsPlaylistId w s)) = cachedUploadsPlaylistId s)
   \<and> (getUploadsPlaylistId w s = (Inr p, s')
      \<longrightarrow> (\<forall>w'. getUploadsPlaylistId w' s' = (Inr p, s'))
          \<and> (\<forall>ws. callsFrom ws s' = (replicate (length ws) (Inr p), s')))"
proof (intro conjI impI allI)
  assume a: "\<not> truthy (cachedUploadsPlaylistId s) \<and> channelsList w = Inr data
               \<and> \<not> truthy (uploadsOf data)"
  then show e: "fst (getUploadsPlaylistId w s) = Inl (Error ''Could not resolve uploads playlist ID'')"
    by (simp add: getUploadsPlaylistId_unresolved)
  then show "cachedUploadsPlaylistId (snd (getUploadsPlaylistId w s)) = cachedUploadsPlaylistId s"
    using getUploadsPlaylistId_error [of w s] by (cases "getUploadsPlaylistId w s") auto
next
  fix w' assume "getUploadsPlaylistId w s = (Inr p, s')"
  from getUploadsPlaylistId_success [OF this]
  show "getUploadsPlaylistId w' s' = (Inr p, s')" by (simp add: getUploadsPlaylistId_cached)
next
  fix ws assume "getUploadsPlaylistId w s = (Inr p, s')"
  from getUploadsPlaylistId_success [OF this]
  show "callsFrom ws s' = (replicate (length ws) (Inr p), s')" by (simp add: callsFrom_cached)
qed

theorem C7_witness:
  "fst (getUploadsPlaylistId empty_channels_world cold) =
     Inl (Error ''Could not resolve uploads playlist ID'')
   \<and> cachedUploadsPlaylistId (snd (getUploadsPlaylistId empty_channels_world cold)) = None
   \<and> getUploadsPlaylistId resolving_world cold = (Inr ''UU123'', warm)
   \<and> getUploadsPlaylistId quota_world warm = (Inr ''UU123'', warm)
   \<and> callsFrom [quota_world, empty_channels_world] warm = ([Inr ''UU123'', Inr ''UU123''], warm)"
proof -
  have a: "\<not> truthy (cachedUploadsPlaylistId cold) \<and>
           channelsList empty_channels_world = Inr \<lparr>channel_items = Some []\<rparr> \<and>
           \<not> truthy (uploadsOf \<lparr>channel_items = Some []\<rparr>)"
    by (simp add: cold_def empty_channels_world_def quota_world_def truthy_def uploadsOf_def)
  have b: "getUploadsPlaylistId resolving_world cold = (Inr ''UU123'', warm)"
    by (simp add: getUploadsPlaylistId_def lookupUploads_def fetchJson_def cold_def warm_def
        resolving_world_def quota_world_def uploadsOf_def)
  from a C7_memo [where s = cold and w = empty_channels_world
      and data = "\<lparr>channel_items = Some []\<rparr>"]
  have 1: "fst (getUploadsPlaylistId empty_channels_world cold) =
             Inl (Error ''Could not resolve uploads playlist ID'')
           \<and> cachedUploadsPlaylistId (snd (getUploadsPlaylistId empty_channels_world cold)) =
             cachedUploadsPlaylistId cold"
    by blast
  from b C7_memo [where s = cold and w = resolving_world and p = "''UU123''" and s' = warm]
  have 2: "getUploadsPlaylistId quota_world warm = (Inr ''UU123'', warm)"
    and 3: "callsFrom [quota_world, empty_channels_world] warm =
              (replicate (length [quota_world, empty_channels_world]) (Inr ''UU123''), warm)"
    by blast+
  from 1 have 4: "cachedUploadsPlaylistId (snd (getUploadsPlaylistId empty_channels_world cold))
                    = None"
    by (simp add: cold_def)
  from 3 have 5: "callsFrom [quota_world, empty_channels_world] warm =
                    ([Inr ''UU123'', Inr ''UU123''], warm)"
    by (simp add: numeral_2_eq_2)
  from 1 4 b 2 5 show ?thesis by blast
qed

text \<open>
  Claim C8. For the empty candidate list, and for every clock value and grace window,
  the selection is exactly state none with no video id and no start time.
\<close>

theorem C8_empty_candidates:
  "pickStateFromVideos dparse graceMs now [] =
     \<lparr>state = NoState, videoId = None, upcomingStartMs = None\<rparr>"
  by (simp add: pickStateFromVideos_def scheduled_def upcomingGrace_def upcomingFuture_def
      completed_def first_def sort_cmp_def List.map_filter_simps)

text \<open>
  Claim C9. In the result of the selection the start time is present exactly when the
  state is upcoming, and the video id is present exactly when the state is not none.
\<close>

theorem C9_presence:
  "(upcomingStartMs (pickStateFromVideos dparse graceMs now videos) \<noteq> None
      \<longleftrightarrow> state (pickStateFromVideos dparse graceMs now videos) = Upcoming)
   \<and> (videoId (pickStateFromVideos dparse graceMs now videos) \<noteq> None
      \<longleftrightarrow> state (pickStateFromVideos dparse graceMs now videos) \<noteq> NoState)"
  by (simp add: pickStateFromVideos_def Let_def split: option.splits)

theorem C9_witness:
  "state (pickStateFromVideos demo_parse 600000 1893490440000 [future_video, late_starter]) = Upcoming
   \<and> upcomingStartMs (pickStateFromVideos demo_parse 600000 1893490440000
        [future_video, late_starter]) \<noteq> None
   \<and> videoId (pickStateFromVideos demo_parse 600000 1893490440000
        [future_video, late_starter]) \<noteq> None"
proof -
  have "state (pickStateFromVideos demo_parse 600000 1893490440000 [future_video, late_starter])
          = Upcoming"
    by (simp add: model_defs video_defs)
  with C9_presence [of demo_parse 600000 1893490440000 "[future_video, late_starter]"]
  show ?thesis by simp
qed

text \<open>
  Claim C10, as stated, bounds the start time of an upcoming result strictly:
  \<open>now - graceMs < upcomingStartMs\<close>. The grace rule accepts \<open>now - t \<le> graceMs\<close>, so a
  start exactly \<open>graceMs\<close> in the past is still upcoming.
\<close>

theorem C10_counterexample:
  "pickStateFromVideos demo_parse 600000 1893490800000 [late_starter] =
     \<lparr>state = Upcoming, videoId = Some ''late'', upcomingStartMs = Some 1893490200000\<rparr>
   \<and> \<not> ((1893490800000::int) - 600000 < 1893490200000)"
  by (simp add: model_defs video_defs)

text \<open>
  Claim C10, amended. For a grace window that is not negative, an upcoming result has a
  start time of at least \<open>now - graceMs\<close>; it can be in the past, as the example after the
  theorem shows.
\<close>

theorem C10_lower_bound:
  assumes "0 \<le> graceMs"
    and "state (pickStateFromVideos dparse graceMs now videos) = Upcoming"
  shows "\<exists>t. upcomingStartMs (pickStateFromVideos dparse graceMs now videos) = Some t
             \<and> now - graceMs \<le> t"
proof (cases "find isLiveNow videos")
  case (Some a)
  with assms(2) show ?thesis by (simp add: pickStateFromVideos_def)
next
  case None
  show ?thesis
  proof (cases "upcomingGrace graceMs now (scheduled dparse videos)")
    case (Some g)
    from upcomingGrace_Some(1) [OF Some] have "now - graceMs \<le> s_t g"
      by (auto simp: grace_candidate_def)
    with None Some show ?thesis by (simp add: pickStateFromVideos_def)
  next
    case gN: None
    show ?thesis
    proof (cases "upcomingFuture now (scheduled dparse videos)")
      case (Some p)
      from upcomingFuture_Some(1) [OF Some] assms(1) have "now - graceMs \<le> s_t p"
        by (auto simp: future_candidate_def)
      with None gN Some show ?thesis by (simp add: pickStateFromVideos_def)
    next
      case fN: None
      with None gN assms(2) show ?thesis
        by (simp add: pickStateFromVideos_def split: option.splits)
    qed
  qed
qed

theorem C10_witness:
  "(0::int) \<le> GRACE_MS 10
   \<and> state (pickStateFromVideos demo_parse (GRACE_MS 10) 1893490800000 [late_starter]) = Upcoming
   \<and> (\<exists>t. upcomingStartMs (pickStateFromVideos demo_parse (GRACE_MS 10) 1893490800000
              [late_starter]) = Some t
          \<and> 1893490800000 - GRACE_MS 10 \<le> t \<and> t \<le> 1893490800000)"
proof -
  have a: "(0::int) \<le> GRACE_MS 10" by (simp add: GRACE_MS_def)
  have b: "pickStateFromVideos demo_parse (GRACE_MS 10) 1893490800000 [late_starter] =
             \<lparr>state = Upcoming, videoId = Some ''late'', upcomingStartMs = Some 1893490200000\<rparr>"
    by (simp add: model_defs video_defs GRACE_MS_def)
  then have c: "state (pickStateFromVideos demo_parse (GRACE_MS 10) 1893490800000 [late_starter])
             = Upcoming" by simp
  from C10_lower_bound [OF a c] a b c show ?thesis by simp
qed

end
